theory Spec2Isabelle
  imports Main
begin

section \<open>Step derivation of the transaction status page\<close>

text \<open>
  \<^verbatim>\<open>src/components/TransactionStatus.jsx\<close>, \<^verbatim>\<open>getStepStatus\<close>. Statuses and step
  keys are JavaScript strings; the order of the statuses is the position in the array
  \<^verbatim>\<open>statusOrder\<close>, looked up with \<^verbatim>\<open>Array.prototype.indexOf\<close>, which answers
  \<open>-1\<close> for a value that is not in the array.
\<close>

fun indexOf_from :: "'a list \<Rightarrow> 'a \<Rightarrow> int \<Rightarrow> int" where
  "indexOf_from [] x i = - 1"
| "indexOf_from (y # ys) x i = (if y = x then i else indexOf_from ys x (i + 1))"

definition indexOf :: "'a list \<Rightarrow> 'a \<Rightarrow> int" where
  "indexOf xs x = indexOf_from xs x 0"

text \<open>
  The transaction record fetched from the backend. Only \<open>status\<close> is read by the
  step derivation; the other fields are displayed as they are (amounts are kept as the
  text the backend sent).
\<close>

record transaction =
  tx_id :: string
  status :: string
  amountUSD :: string
  usdtAmount :: string
  walletAddress :: string
  transactionHash :: "string option"
  errorMessage :: "string option"

definition statusOrder :: "string list" where
  "statusOrder =
     [''pending'', ''payment_processing'', ''payment_confirmed'',
      ''converting_to_usdt'', ''usdt_sent'', ''completed'']"

definition getStepStatus :: "transaction option \<Rightarrow> string \<Rightarrow> string" where
  "getStepStatus tr step =
     (case tr of
        None \<Rightarrow> ''pending''
      | Some t \<Rightarrow>
          (let currentIndex = indexOf statusOrder (status t);
               stepIndex = indexOf statusOrder step
           in if status t = ''failed''
              then (if currentIndex \<ge> stepIndex then ''failed'' else ''pending'')
              else if currentIndex \<ge> stepIndex then ''completed''
              else if currentIndex + 1 = stepIndex then ''active''
              else ''pending''))"

text \<open>The five steps of the page, in display order (\<^verbatim>\<open>steps\<close>: key and label).\<close>

definition steps :: "(string \<times> string) list" where
  "steps =
     [(''payment_processing'', ''Payment Processing''),
      (''payment_confirmed'', ''Payment Confirmed''),
      (''converting_to_usdt'', ''Converting to USDT''),
      (''usdt_sent'', ''USDT Sent''),
      (''completed'', ''Completed'')]"

text \<open>
  The render loop \<^verbatim>\<open>steps.map((step, index) => getStepStatus(step.key) ...)\<close>: the list
  of the five display states.
\<close>

definition stepStatuses :: "transaction option \<Rightarrow> string list" where
  "stepStatuses tr = map (\<lambda>step. getStepStatus tr (fst step)) steps"

section \<open>The push channel service\<close>

text \<open>
  \<^verbatim>\<open>src/services/websocket.js\<close>, class \<^verbatim>\<open>WebSocketService\<close>, of which the
  application holds one instance. A callback is a JavaScript function object: it is
  compared by reference (\<^verbatim>\<open>indexOf\<close> uses \<^verbatim>\<open>===\<close>), so the model names it by a
  number, its identity.

  The transport object returned by \<^verbatim>\<open>io(...)\<close> belongs to the library socket.io-client.
  The service uses its flag \<^verbatim>\<open>connected\<close>, its event emitter (\<^verbatim>\<open>on\<close> appends a
  handler for an event, \<^verbatim>\<open>off\<close> removes the first handler of that event that is the
  given function, \<^verbatim>\<open>removeAllListeners\<close> removes every handler of the event),
  \<^verbatim>\<open>emit\<close>, \<^verbatim>\<open>connect\<close> and \<^verbatim>\<open>disconnect\<close>. The handlers that
  \<^verbatim>\<open>WebSocketService.connect\<close> installs itself are closures of the service; they are
  named by constructors. What the service does to the transport (opening it, closing
  it, emitting a frame) is recorded in order in \<open>wire\<close>.
\<close>

type_synonym callback = nat

datatype handler = ConnectHandler | DisconnectHandler | LogHandler | Callback callback

datatype wire_event = Opened | Closed | Reopened | Emitted string "string option"

record io_socket =
  connected :: bool
  handlers :: "(string \<times> handler) list"

definition socket_on :: "io_socket \<Rightarrow> string \<Rightarrow> handler \<Rightarrow> io_socket" where
  "socket_on k event h = k\<lparr>handlers := handlers k @ [(event, h)]\<rparr>"

definition socket_off :: "io_socket \<Rightarrow> string \<Rightarrow> handler \<Rightarrow> io_socket" where
  "socket_off k event h = k\<lparr>handlers := remove1 (event, h) (handlers k)\<rparr>"

definition socket_removeAllListeners :: "io_socket \<Rightarrow> string \<Rightarrow> io_socket" where
  "socket_removeAllListeners k event =
     k\<lparr>handlers := filter (\<lambda>eh. fst eh \<noteq> event) (handlers k)\<rparr>"

record WebSocketService =
  socket :: "io_socket option"
  listeners :: "string \<rightharpoonup> callback list"
  wire :: "wire_event list"

text \<open>The constructor: \<^verbatim>\<open>this.socket = null; this.listeners = new Map()\<close>.\<close>

definition websocketService :: WebSocketService where
  "websocketService = \<lparr>socket = None, listeners = Map.empty, wire = []\<rparr>"

text \<open>
  \<^verbatim>\<open>connect()\<close> returns at once when \<^verbatim>\<open>this.socket?.connected\<close>; otherwise it
  replaces \<^verbatim>\<open>this.socket\<close> by a new transport and installs its seven handlers.
  The service keeps no reference to a transport it has replaced, and neither does the
  model: the events below are those of the transport that \<^verbatim>\<open>this.socket\<close> holds.
\<close>

definition connect :: "WebSocketService \<Rightarrow> WebSocketService" where
  "connect s =
     (if (case socket s of None \<Rightarrow> False | Some k \<Rightarrow> connected k) then s
      else s\<lparr>socket := Some \<lparr>connected = False,
                 handlers = [(''connect'', ConnectHandler),
                             (''disconnect'', DisconnectHandler),
                             (''connect_error'', LogHandler),
                             (''reconnect'', LogHandler),
                             (''reconnect_attempt'', LogHandler),
                             (''reconnect_failed'', LogHandler),
                             (''error'', LogHandler)]\<rparr>,
             wire := wire s @ [Opened]\<rparr>)"

definition disconnect :: "WebSocketService \<Rightarrow> WebSocketService" where
  "disconnect s =
     (case socket s of
        None \<Rightarrow> s
      | Some k \<Rightarrow> s\<lparr>socket := None, wire := wire s @ [Closed]\<rparr>)"

text \<open>The room id is whatever the caller passes: \<^verbatim>\<open>user._id\<close> may be undefined.\<close>

definition joinRoom :: "WebSocketService \<Rightarrow> string option \<Rightarrow> WebSocketService" where
  "joinRoom s userId =
     (case socket s of
        None \<Rightarrow> s
      | Some k \<Rightarrow> s\<lparr>wire := wire s @ [Emitted ''join'' userId]\<rparr>)"

definition leaveRoom :: "WebSocketService \<Rightarrow> string option \<Rightarrow> WebSocketService" where
  "leaveRoom s userId =
     (case socket s of
        None \<Rightarrow> s
      | Some k \<Rightarrow> s\<lparr>wire := wire s @ [Emitted ''leave'' userId]\<rparr>)"

text \<open>
  \<^verbatim>\<open>on\<close>: with a transport, the callback is registered on it and pushed on the
  array stored under the event name (created empty when the name is new).
\<close>

definition on :: "WebSocketService \<Rightarrow> string \<Rightarrow> callback \<Rightarrow> WebSocketService" where
  "on s event cb =
     (case socket s of
        None \<Rightarrow> s
      | Some k \<Rightarrow>
          s\<lparr>socket := Some (socket_on k event (Callback cb)),
            listeners := (listeners s)
              (event \<mapsto> (case listeners s event of None \<Rightarrow> [] | Some cbs \<Rightarrow> cbs) @ [cb])\<rparr>)"

text \<open>\<^verbatim>\<open>callbacks.splice(index, 1)\<close>: the element at \<open>index\<close> is removed.\<close>

definition splice1 :: "nat \<Rightarrow> 'a list \<Rightarrow> 'a list" where
  "splice1 i xs = take i xs @ drop (Suc i) xs"

definition off :: "WebSocketService \<Rightarrow> string \<Rightarrow> callback \<Rightarrow> WebSocketService" where
  "off s event cb =
     (case socket s of
        None \<Rightarrow> s
      | Some k \<Rightarrow>
          s\<lparr>socket := Some (socket_off k event (Callback cb)),
            listeners :=
              (case listeners s event of
                 None \<Rightarrow> listeners s
               | Some cbs \<Rightarrow>
                   (let index = indexOf cbs cb
                    in if index > - 1
                       then (listeners s)(event \<mapsto> splice1 (nat index) cbs)
                       else listeners s))\<rparr>)"

definition removeAllListeners :: "WebSocketService \<Rightarrow> string \<Rightarrow> WebSocketService" where
  "removeAllListeners s event =
     (case socket s of
        None \<Rightarrow> s
      | Some k \<Rightarrow>
          s\<lparr>socket := Some (socket_removeAllListeners k event),
            listeners := (listeners s)(event := None)\<rparr>)"

text \<open>
  The callbacks the registry holds for an event: those of the stored array, none when
  the map has no entry for the name.
\<close>

definition callbacks_of :: "WebSocketService \<Rightarrow> string \<Rightarrow> callback list" where
  "callbacks_of s event = (case listeners s event of None \<Rightarrow> [] | Some cbs \<Rightarrow> cbs)"

section \<open>Persisted client state\<close>

text \<open>
  The browser's local storage holds two items: \<^verbatim>\<open>token\<close> and \<^verbatim>\<open>user\<close>. The item
  \<^verbatim>\<open>user\<close> is written by \<^verbatim>\<open>JSON.stringify(user)\<close> only, so it is kept here as the
  object that \<^verbatim>\<open>JSON.parse\<close> gives back. A user object may lack the field
  \<^verbatim>\<open>_id\<close> (\<open>user_id\<close>). \<open>obj\<close> is the identity of the object in memory: React
  compares the dependencies of an effect by identity, so two user objects with the same
  fields are still two users for the effect on \<^verbatim>\<open>[user]\<close>. Nothing else reads it;
  in a stored item it means nothing, and \<^verbatim>\<open>JSON.parse\<close> and a response of the
  backend give an object with a new identity each time.
\<close>

record user =
  obj :: nat
  user_id :: "string option"
  email :: string

record storage =
  token_item :: "string option"
  user_item :: "user option"

text \<open>JavaScript truthiness of \<^verbatim>\<open>user._id\<close>: undefined and the empty string are falsy.\<close>

definition truthy :: "string option \<Rightarrow> bool" where
  "truthy v = (case v of None \<Rightarrow> False | Some x \<Rightarrow> x \<noteq> [])"

section \<open>Transport events\<close>

text \<open>
  The handler of \<^verbatim>\<open>connect\<close> installed by \<^verbatim>\<open>WebSocketService.connect\<close>:
  \<^verbatim>\<open>const user = JSON.parse(localStorage.getItem('user') || '{}');
  if (user._id) this.joinRoom(user._id)\<close>.
\<close>

definition onConnect :: "storage \<Rightarrow> WebSocketService \<Rightarrow> WebSocketService" where
  "onConnect st s =
     (let uid = (case user_item st of None \<Rightarrow> None | Some u \<Rightarrow> user_id u)
      in if truthy uid then joinRoom s uid else s)"

text \<open>The handler of \<^verbatim>\<open>disconnect\<close>: a manual \<^verbatim>\<open>socket.connect()\<close> when the server closed.\<close>

definition onDisconnect :: "string \<Rightarrow> WebSocketService \<Rightarrow> WebSocketService" where
  "onDisconnect reason s =
     (if reason = ''io server disconnect'' then s\<lparr>wire := wire s @ [Reopened]\<rparr> else s)"

text \<open>
  Running one handler. The other five handlers of the service only write to the console.
  A callback registered by a component does not touch the service; what it does to its
  component is described with the component.
\<close>

fun invoke :: "storage \<Rightarrow> string \<Rightarrow> handler \<Rightarrow> WebSocketService \<Rightarrow> WebSocketService" where
  "invoke st arg ConnectHandler s = onConnect st s"
| "invoke st arg DisconnectHandler s = onDisconnect arg s"
| "invoke st arg LogHandler s = s"
| "invoke st arg (Callback cb) s = s"

text \<open>
  The transport held in \<^verbatim>\<open>this.socket\<close> fires an event: the handlers registered on
  it for that event run in registration order.
\<close>

definition fire :: "storage \<Rightarrow> string \<Rightarrow> string \<Rightarrow> WebSocketService \<Rightarrow> WebSocketService" where
  "fire st event arg s =
     (case socket s of
        None \<Rightarrow> s
      | Some k \<Rightarrow>
          fold (\<lambda>eh s'. if fst eh = event then invoke st arg (snd eh) s' else s')
            (handlers k) s)"

definition transport_connect :: "storage \<Rightarrow> WebSocketService \<Rightarrow> WebSocketService" where
  "transport_connect st s =
     (case socket s of
        None \<Rightarrow> s
      | Some k \<Rightarrow> fire st ''connect'' [] (s\<lparr>socket := Some (k\<lparr>connected := True\<rparr>)\<rparr>))"

definition transport_disconnect ::
  "storage \<Rightarrow> string \<Rightarrow> WebSocketService \<Rightarrow> WebSocketService" where
  "transport_disconnect st reason s =
     (case socket s of
        None \<Rightarrow> s
      | Some k \<Rightarrow> fire st ''disconnect'' reason (s\<lparr>socket := Some (k\<lparr>connected := False\<rparr>)\<rparr>))"

text \<open>The room ids of the frames \<^verbatim>\<open>join\<close> in a log, in order.\<close>

definition joins_of :: "wire_event list \<Rightarrow> string option list" where
  "joins_of ws =
     concat (map (\<lambda>w. case w of
                          Emitted ev room \<Rightarrow> (if ev = ''join'' then [room] else [])
                        | _ \<Rightarrow> []) ws)"

definition joins :: "WebSocketService \<Rightarrow> string option list" where
  "joins s = joins_of (wire s)"

section \<open>The transaction status page and the session provider\<close>

text \<open>
  \<^verbatim>\<open>src/components/TransactionStatus.jsx\<close>. The component keeps \<open>transaction\<close>
  and \<open>loading\<close> with \<^verbatim>\<open>useState\<close>; \<open>route_id\<close> is the \<^verbatim>\<open>id\<close> of the route.
  \<^verbatim>\<open>fetchTransaction\<close> is asynchronous: its call issues the request
  \<^verbatim>\<open>transactionAPI.getTransaction(id)\<close> and returns; the rest of its body runs when the
  request settles. \<open>inflight\<close> lists the requests that have been issued and have not
  settled, \<open>fetches\<close> counts the requests issued, \<open>toasts\<close> collects the messages
  given to \<^verbatim>\<open>toast.error\<close>. \<open>handleTransactionUpdate_cb\<close> is the identity of the
  closure \<^verbatim>\<open>handleTransactionUpdate\<close> that the effect registers and later removes.
  The component has no flag that records whether it is still mounted.
\<close>

record TransactionStatus =
  route_id :: string
  transaction :: "transaction option"
  loading :: bool
  inflight :: "string list"
  fetches :: nat
  toasts :: "string list"
  handleTransactionUpdate_cb :: callback

text \<open>
  \<^verbatim>\<open>src/context/AuthContext.jsx\<close>. The provider keeps \<open>user\<close>, \<open>token\<close> and
  \<open>loading\<close> with \<^verbatim>\<open>useState\<close>. A setter queues the new value; the component sees
  it at its next render. \<open>queued_user\<close> is the value the next render will show (the
  current one when nothing is queued), and so for the other two. \<open>me_requests\<close>
  counts the calls of \<^verbatim>\<open>authAPI.getMe()\<close> that have not settled; \<open>next_obj\<close> is
  the identity the next new user object gets.
\<close>

record AuthProvider =
  user :: "user option"
  token :: "string option"
  auth_loading :: bool
  queued_user :: "user option"
  queued_token :: "string option"
  queued_loading :: bool
  me_requests :: nat
  next_obj :: nat

record app =
  service :: WebSocketService
  localStorage :: storage
  page :: TransactionStatus
  session :: AuthProvider

text \<open>The call of \<^verbatim>\<open>fetchTransaction\<close> up to its \<^verbatim>\<open>await\<close>.\<close>

definition fetchTransaction :: "TransactionStatus \<Rightarrow> TransactionStatus" where
  "fetchTransaction p = p\<lparr>inflight := inflight p @ [route_id p], fetches := Suc (fetches p)\<rparr>"

text \<open>
  A request settles with \<^verbatim>\<open>response.data.transaction\<close> (which may be undefined) or
  with a rejection.
\<close>

datatype fetch_outcome = Fulfilled "transaction option" | Rejected

text \<open>
  The rest of \<^verbatim>\<open>fetchTransaction\<close>, run when the \<open>i\<close>-th outstanding request
  settles: \<^verbatim>\<open>setTransaction(...)\<close> in the \<^verbatim>\<open>try\<close>, \<^verbatim>\<open>toast.error(...)\<close> in the
  \<^verbatim>\<open>catch\<close>, \<^verbatim>\<open>setLoading(false)\<close> in the \<^verbatim>\<open>finally\<close>.
\<close>

definition settle :: "nat \<Rightarrow> fetch_outcome \<Rightarrow> TransactionStatus \<Rightarrow> TransactionStatus" where
  "settle i outcome p =
     (if i < length (inflight p)
      then (let p1 = p\<lparr>inflight := splice1 i (inflight p)\<rparr>;
                p2 = (case outcome of
                        Fulfilled t \<Rightarrow> p1\<lparr>transaction := t\<rparr>
                      | Rejected \<Rightarrow> p1\<lparr>toasts := toasts p1 @ [''Failed to load transaction'']\<rparr>)
            in p2\<lparr>loading := False\<rparr>)
      else p)"

definition handleTransactionUpdate :: "string \<Rightarrow> TransactionStatus \<Rightarrow> TransactionStatus" where
  "handleTransactionUpdate transactionId p =
     (if transactionId = route_id p then fetchTransaction p else p)"

text \<open>The effect of the page (\<open>mount\<close>) and its cleanup (\<open>unmount\<close>).\<close>

definition mount :: "app \<Rightarrow> app" where
  "mount a =
     a\<lparr>page := fetchTransaction (page a),
       service := on (service a) ''transaction_update'' (handleTransactionUpdate_cb (page a))\<rparr>"

definition unmount :: "app \<Rightarrow> app" where
  "unmount a =
     a\<lparr>service := off (service a) ''transaction_update'' (handleTransactionUpdate_cb (page a))\<rparr>"

text \<open>
  The server pushes \<^verbatim>\<open>transaction_update\<close> with \<^verbatim>\<open>{ transactionId }\<close>: the transport
  held by the service runs each handler registered for the event; the page's callback is
  \<^verbatim>\<open>handleTransactionUpdate\<close>.
\<close>

definition push :: "string \<Rightarrow> app \<Rightarrow> app" where
  "push transactionId a =
     (case socket (service a) of
        None \<Rightarrow> a
      | Some k \<Rightarrow>
          fold (\<lambda>eh a'. if eh = (''transaction_update'', Callback (handleTransactionUpdate_cb (page a)))
                         then a'\<lparr>page := handleTransactionUpdate transactionId (page a')\<rparr>
                         else a')
            (handlers k) a)"

text \<open>
  The effect of the provider on \<^verbatim>\<open>[user]\<close> and its cleanup; \<open>u\<close> is the user of the
  render the effect belongs to.
\<close>

definition userEffect :: "user option \<Rightarrow> WebSocketService \<Rightarrow> WebSocketService" where
  "userEffect u s =
     (case u of
        Some usr \<Rightarrow> joinRoom (connect s) (user_id usr)
      | None \<Rightarrow> disconnect s)"

definition userEffectCleanup :: "user option \<Rightarrow> WebSocketService \<Rightarrow> WebSocketService" where
  "userEffectCleanup u s =
     (case u of
        Some usr \<Rightarrow> leaveRoom s (user_id usr)
      | None \<Rightarrow> s)"

text \<open>A user object is created: it gets the next identity.\<close>

definition setUser_new :: "user \<Rightarrow> AuthProvider \<Rightarrow> AuthProvider" where
  "setUser_new usr p =
     p\<lparr>queued_user := Some (usr\<lparr>obj := next_obj p\<rparr>), next_obj := Suc (next_obj p)\<rparr>"

text \<open>
  The end of a successful \<^verbatim>\<open>login\<close> (and of a \<^verbatim>\<open>register\<close> that logs in at
  once): both setters on the user and the token of the response, then both storage
  items.
\<close>

definition login :: "user \<Rightarrow> string \<Rightarrow> app \<Rightarrow> app" where
  "login usr tok a =
     a\<lparr>session := (setUser_new usr (session a))\<lparr>queued_token := Some tok\<rparr>,
       localStorage := \<lparr>token_item = Some tok, user_item = Some usr\<rparr>\<rparr>"

text \<open>The end of a successful \<^verbatim>\<open>updateUser\<close>: the updated user is set and stored.\<close>

definition updateUser :: "user \<Rightarrow> app \<Rightarrow> app" where
  "updateUser usr a =
     a\<lparr>session := setUser_new usr (session a),
       localStorage := (localStorage a)\<lparr>user_item := Some usr\<rparr>\<rparr>"

text \<open>
  \<^verbatim>\<open>logout\<close>: \<^verbatim>\<open>setUser(null); setToken(null)\<close>, both storage items removed, then
  \<^verbatim>\<open>websocketService.disconnect()\<close>, all in the one call.
\<close>

definition logout :: "app \<Rightarrow> app" where
  "logout a =
     a\<lparr>session := (session a)\<lparr>queued_user := None, queued_token := None\<rparr>,
       localStorage := \<lparr>token_item = None, user_item = None\<rparr>,
       service := disconnect (service a)\<rparr>"

text \<open>
  The effect of the provider on \<^verbatim>\<open>[token]\<close>, with the token of the render it belongs
  to: the stored user, when there is one, is parsed and given to \<^verbatim>\<open>setUser\<close>; then,
  with a token, \<^verbatim>\<open>fetchUser()\<close> runs up to its \<^verbatim>\<open>await\<close>, and without one
  \<^verbatim>\<open>setLoading(false)\<close> is called. It does not touch the service.
\<close>

definition tokenEffect :: "app \<Rightarrow> app" where
  "tokenEffect a =
     (let p1 = (case user_item (localStorage a) of
                  None \<Rightarrow> session a
                | Some storedUser \<Rightarrow> setUser_new storedUser (session a))
      in a\<lparr>session := (if truthy (token p1)
                         then p1\<lparr>me_requests := Suc (me_requests p1)\<rparr>
                         else p1\<lparr>queued_loading := False\<rparr>)\<rparr>)"

text \<open>
  The rest of \<^verbatim>\<open>fetchUser\<close>, when a call of \<^verbatim>\<open>getMe\<close> settles. Fulfilled:
  \<^verbatim>\<open>setUser\<close> with the user of the response, that user stored, then
  \<^verbatim>\<open>setLoading(false)\<close>. Rejected: \<^verbatim>\<open>logout()\<close>, then \<^verbatim>\<open>setLoading(false)\<close>.
\<close>

definition getMe_fulfilled :: "user \<Rightarrow> app \<Rightarrow> app" where
  "getMe_fulfilled usr a =
     (if 0 < me_requests (session a)
      then a\<lparr>session := (setUser_new usr (session a))
                 \<lparr>queued_loading := False, me_requests := me_requests (session a) - 1\<rparr>,
             localStorage := (localStorage a)\<lparr>user_item := Some usr\<rparr>\<rparr>
      else a)"

definition getMe_rejected :: "app \<Rightarrow> app" where
  "getMe_rejected a =
     (if 0 < me_requests (session a)
      then (let a1 = logout a
            in a1\<lparr>session := (session a1)
                   \<lparr>queued_loading := False, me_requests := me_requests (session a1) - 1\<rparr>\<rparr>)
      else a)"

text \<open>
  The first render of the provider: both effects run, in the order of their
  declaration.
\<close>

definition provider_mount :: "app \<Rightarrow> app" where
  "provider_mount a =
     (let a1 = tokenEffect a
      in a1\<lparr>service := userEffect (user (session a)) (service a1)\<rparr>)"

text \<open>
  A later render of the provider. The queued values become current. React first runs
  the cleanups of the effects whose dependency has changed (only the effect on
  \<^verbatim>\<open>[user]\<close> has one; it runs with the previous user), then the effects themselves
  in the order of their declaration: the one on \<^verbatim>\<open>[token]\<close>, then the one on
  \<^verbatim>\<open>[user]\<close> with the new user. State updates are batched: a function that calls
  setters has returned before the render that shows the new values. In particular
  \<^verbatim>\<open>logout\<close>, called from the click handler of the navigation bar, has returned
  before the provider renders.
\<close>

definition render :: "app \<Rightarrow> app" where
  "render a =
     (let prev_user = user (session a);
          new_user = queued_user (session a);
          prev_token = token (session a);
          new_token = queued_token (session a);
          a1 = a\<lparr>session := (session a)\<lparr>user := new_user, token := new_token,
                                         auth_loading := queued_loading (session a)\<rparr>\<rparr>;
          a2 = (if new_user = prev_user then a1
                else a1\<lparr>service := userEffectCleanup prev_user (service a1)\<rparr>);
          a3 = (if new_token = prev_token then a2 else tokenEffect a2)
      in if new_user = prev_user then a3
         else a3\<lparr>service := userEffect new_user (service a3)\<rparr>)"

text \<open>What can happen to the application, and a run of such events.\<close>

datatype event =
    Boot
  | Login user string
  | Logout
  | UpdateUser user
  | GetMeFulfilled user
  | GetMeRejected
  | Render
  | Mount
  | Unmount
  | Push string
  | Settle nat fetch_outcome
  | TransportConnect
  | TransportDisconnect string

fun step :: "event \<Rightarrow> app \<Rightarrow> app" where
  "step Boot a = provider_mount a"
| "step (Login usr tok) a = login usr tok a"
| "step Logout a = logout a"
| "step (UpdateUser usr) a = updateUser usr a"
| "step (GetMeFulfilled usr) a = getMe_fulfilled usr a"
| "step GetMeRejected a = getMe_rejected a"
| "step Render a = render a"
| "step Mount a = mount a"
| "step Unmount a = unmount a"
| "step (Push transactionId) a = push transactionId a"
| "step (Settle i outcome) a = a\<lparr>page := settle i outcome (page a)\<rparr>"
| "step TransportConnect a = a\<lparr>service := transport_connect (localStorage a) (service a)\<rparr>"
| "step (TransportDisconnect reason) a =
     a\<lparr>service := transport_disconnect (localStorage a) reason (service a)\<rparr>"

definition run :: "event list \<Rightarrow> app \<Rightarrow> app" where
  "run evs a = fold step evs a"

text \<open>
  The application before the provider's first render, with nothing stored, for the page
  of transaction \<open>tid\<close> whose callback has identity \<open>cb\<close>.
\<close>

definition start :: "string \<Rightarrow> callback \<Rightarrow> app" where
  "start tid cb =
     \<lparr>service = websocketService,
      localStorage = \<lparr>token_item = None, user_item = None\<rparr>,
      page = \<lparr>route_id = tid, transaction = None, loading = True, inflight = [],
               fetches = 0, toasts = [], handleTransactionUpdate_cb = cb\<rparr>,
      session = \<lparr>user = None, token = None, auth_loading = True, queued_user = None,
                  queued_token = None, queued_loading = True, me_requests = 0,
                  next_obj = 1\<rparr>\<rparr>"

section \<open>The request layer\<close>

text \<open>
  The axios instance \<^verbatim>\<open>api\<close> of the request layer and its response interceptor. An
  axios error carries \<^verbatim>\<open>code\<close>, \<^verbatim>\<open>message\<close> and, when the server answered,
  \<^verbatim>\<open>response\<close> (its status and its body). Of the body, the fields \<^verbatim>\<open>message\<close>,
  \<^verbatim>\<open>isTimeout\<close> and \<^verbatim>\<open>isNetworkError\<close> are kept, each present or not (a flag by
  its truthiness): the interceptor spreads the body over the object it rejects with, so
  these are the fields of the body that reach the fields of that object read here. The
  request configuration carries the marker \<^verbatim>\<open>__retryCount\<close> that the interceptor
  sets. The object a caller's promise is rejected with has \<^verbatim>\<open>message\<close> and perhaps
  the flags \<^verbatim>\<open>isTimeout\<close> and \<^verbatim>\<open>isNetworkError\<close> (a flag that is not set reads as
  false).
\<close>

record response_body =
  body_message :: "string option"
  body_isTimeout :: "bool option"
  body_isNetworkError :: "bool option"

record axios_error =
  code :: "string option"
  error_message :: string
  response :: "(nat \<times> response_body) option"

record request_config =
  url :: string
  retryCount :: "nat option"

record api_error =
  message :: string
  isTimeout :: bool
  isNetworkError :: bool

text \<open>
  What the rejection branch of the interceptor decides: to send the request again with
  the changed configuration, or to reject; \<open>Reject e True\<close> when it has also removed
  both storage items and redirected to the login view (status 401). In that branch the
  object is \<^verbatim>\<open>{ message, ...error.response.data }\<close>: a field of the body replaces the
  field of the same name.
\<close>

datatype decision = Retry request_config | Reject api_error bool

text \<open>JavaScript \<^verbatim>\<open>a || b\<close> on a string that may be undefined.\<close>

definition or_else :: "string option \<Rightarrow> string \<Rightarrow> string" where
  "or_else a b = (case a of None \<Rightarrow> b | Some x \<Rightarrow> if x \<noteq> [] then x else b)"

definition onRejected :: "axios_error \<Rightarrow> request_config \<Rightarrow> decision" where
  "onRejected error config =
     (if code error = Some ''ECONNABORTED''
      then (if retryCount config = None \<or> retryCount config = Some 0
            then Retry (config\<lparr>retryCount := Some 1\<rparr>)
            else Reject \<lparr>message = ''Connection timeout. The server is taking too long to respond. Please try again.'',
                         isTimeout = True, isNetworkError = False\<rparr> False)
      else if code error = Some ''ERR_NETWORK'' \<or> error_message error = ''Network Error''
      then Reject \<lparr>message = ''Cannot connect to server. Please check your internet connection or try again later.'',
                   isTimeout = False, isNetworkError = True\<rparr> False
      else (case response error of
              Some (http_status, data) \<Rightarrow>
                (let message = or_else (body_message data)
                                 (if error_message error \<noteq> [] then error_message error
                                  else ''An error occurred'')
                 in Reject \<lparr>message = (case body_message data of
                                           None \<Rightarrow> message | Some m \<Rightarrow> m),
                            isTimeout = (case body_isTimeout data of
                                           None \<Rightarrow> False | Some b \<Rightarrow> b),
                            isNetworkError = (case body_isNetworkError data of
                                                None \<Rightarrow> False | Some b \<Rightarrow> b)\<rparr>
                      (http_status = 401))
            | None \<Rightarrow>
                Reject \<lparr>message = (if error_message error \<noteq> [] then error_message error
                                     else ''An unexpected error occurred''),
                        isTimeout = False, isNetworkError = False\<rparr> False))"

text \<open>
  \<^verbatim>\<open>api.request(config)\<close>. The network is a function from the number of the
  transmission to its outcome: a response body, or an axios error. The result is what
  the caller's promise settles with, whether the 401 branch ran, and the number of
  transmissions made so far. The retry calls \<^verbatim>\<open>api.request(error.config)\<close> again, so
  the function is recursive; it ends because the marker is set before the call (the
  configuration of the retried request is the object the interceptor has marked).
\<close>

datatype 'a outcome = Answer 'a | Failure axios_error

function request ::
  "(nat \<Rightarrow> 'a outcome) \<Rightarrow> request_config \<Rightarrow> nat \<Rightarrow> (api_error + 'a) \<times> bool \<times> nat" where
  "request net config n =
     (case net n of
        Answer body \<Rightarrow> (Inr body, False, Suc n)
      | Failure error \<Rightarrow>
          (case onRejected error config of
             Retry config' \<Rightarrow> request net config' (Suc n)
           | Reject e relogin \<Rightarrow> (Inl e, relogin, Suc n)))"
  by pat_completeness auto
termination
proof (relation "measure (\<lambda>(net, config, n).
        if retryCount config = None \<or> retryCount config = Some 0 then 1 else 0)")
  show "wf (measure (\<lambda>(net :: nat \<Rightarrow> 'a outcome, config, n :: nat).
        if retryCount config = None \<or> retryCount config = Some 0 then 1 else 0))"
    by simp
next
  fix net :: "nat \<Rightarrow> 'a outcome" and config n error config'
  assume "net n = Failure error" and "onRejected error config = Retry config'"
  then show "((net, config', Suc n), net, config, n)
      \<in> measure (\<lambda>(net, config, n).
           if retryCount config = None \<or> retryCount config = Some 0 then 1 else 0)"
    by (auto simp: onRejected_def split: if_splits option.splits prod.splits)
qed

declare request.simps [simp del]

text \<open>\<^verbatim>\<open>transactionAPI.getTransaction(id)\<close>: a new configuration, without the marker.\<close>

definition getTransaction :: "(nat \<Rightarrow> 'a outcome) \<Rightarrow> string \<Rightarrow> (api_error + 'a) \<times> bool \<times> nat" where
  "getTransaction net tid = request net \<lparr>url = ''/transactions/'' @ tid, retryCount = None\<rparr> 0"

section \<open>Sample data\<close>

text \<open>
  A transaction with a given status and the user \<open>u1\<close>. The provider has mounted
  with nothing stored and rendered (\<open>booted\<close>). Then \<open>u1\<close> logs in and the provider
  renders; it renders again for the stored user that its effect on \<^verbatim>\<open>[token]\<close> has
  parsed; the call of \<^verbatim>\<open>getMe\<close> is fulfilled and the provider renders a third time
  (\<open>opened\<close>; each of the three renders has a new user object, so each has left the
  room, replaced the transport, which was not yet connected, and joined again). Then
  the transport connects (\<open>signed_in\<close>). The page of transaction \<open>t1\<close> is not yet
  mounted. Axios errors: a timeout, a network failure, and an answer with status 500
  whose body carries \<^verbatim>\<open>isTimeout\<close>.
\<close>

definition tx_with :: "string \<Rightarrow> transaction" where
  "tx_with s =
     \<lparr>tx_id = ''t1'', status = s, amountUSD = ''100'', usdtAmount = ''98.5'',
      walletAddress = ''TXYZ'', transactionHash = None, errorMessage = None\<rparr>"

definition u1 :: user where
  "u1 = \<lparr>obj = 0, user_id = Some ''u1'', email = ''u1@example.org''\<rparr>"

definition booted :: app where
  "booted = run [Boot, Render] (start ''t1'' 7)"

definition opened :: app where
  "opened = run [Login u1 ''tok'', Render, Render, GetMeFulfilled u1, Render] booted"

definition signed_in :: app where
  "signed_in = step TransportConnect opened"

text \<open>
  On \<open>signed_in\<close>, the page has mounted and its first request is outstanding
  (\<open>mounted\<close>); then that request has settled with a pending transaction
  (\<open>viewing\<close>).
\<close>

definition mounted :: app where
  "mounted = step Mount signed_in"

definition viewing :: app where
  "viewing = step (Settle 0 (Fulfilled (Some (tx_with ''pending'')))) mounted"

definition timed_out :: axios_error where
  "timed_out =
     \<lparr>code = Some ''ECONNABORTED'', error_message = ''timeout of 90000ms exceeded'',
      response = None\<rparr>"

definition unreachable :: axios_error where
  "unreachable = \<lparr>code = Some ''ERR_NETWORK'', error_message = ''Network Error'', response = None\<rparr>"

definition gateway_timeout :: axios_error where
  "gateway_timeout =
     \<lparr>code = Some ''ERR_BAD_RESPONSE'',
      error_message = ''Request failed with status code 500'',
      response = Some (500, \<lparr>body_message = Some ''upstream timed out'',
                              body_isTimeout = Some True, body_isNetworkError = None\<rparr>)\<rparr>"

text \<open>
  Four networks: one where every transmission times out, one where the first times out
  and the next is answered, one that cannot be reached, one whose server answers with
  the status 500 above.
\<close>

definition always_times_out :: "nat \<Rightarrow> transaction outcome" where
  "always_times_out n = Failure timed_out"

definition second_try_answers :: "nat \<Rightarrow> transaction outcome" where
  "second_try_answers n = (if n = 0 then Failure timed_out else Answer (tx_with ''completed''))"

definition no_network :: "nat \<Rightarrow> transaction outcome" where
  "no_network n = Failure unreachable"

definition failing_server :: "nat \<Rightarrow> transaction outcome" where
  "failing_server n = Failure gateway_timeout"

section \<open>Auxiliary notions for the statements\<close>

text \<open>
  How many times the page's callback is registered for \<^verbatim>\<open>transaction_update\<close> on the
  transport the service holds, and the registrations of the service's own handler of
  \<^verbatim>\<open>connect\<close> there (one, for the event \<^verbatim>\<open>connect\<close>, on a transport made by
  \<open>connect\<close>).
\<close>

definition deliveries :: "app \<Rightarrow> nat" where
  "deliveries a =
     (case socket (service a) of
        None \<Rightarrow> 0
      | Some k \<Rightarrow>
          count_list (handlers k)
            (''transaction_update'', Callback (handleTransactionUpdate_cb (page a))))"



definition connect_handlers :: "WebSocketService \<Rightarrow> (string \<times> handler) list" where
  "connect_handlers s =
     (case socket s of
        None \<Rightarrow> []
      | Some k \<Rightarrow> filter (\<lambda>eh. snd eh = ConnectHandler) (handlers k))"

text \<open>The events that come from the transport.\<close>

fun is_transport_event :: "event \<Rightarrow> bool" where
  "is_transport_event TransportConnect = True"
| "is_transport_event (TransportDisconnect reason) = True"
| "is_transport_event e = False"

text \<open>The events that reach the page while it is mounted: pushes and settlements.\<close>

fun is_page_event :: "event \<Rightarrow> bool" where
  "is_page_event (Push transactionId) = True"
| "is_page_event (Settle i outcome) = True"
| "is_page_event e = False"

text \<open>The room id that the handler of \<^verbatim>\<open>connect\<close> reads from local storage.\<close>

definition stored_id :: "storage \<Rightarrow> string option" where
  "stored_id st = (case user_item st of None \<Rightarrow> None | Some u \<Rightarrow> user_id u)"


section \<open>Facts about array lookup and removal\<close>





section \<open>The step derivation\<close>

lemma statusOrder_cases:
  "s \<in> set statusOrder \<Longrightarrow>
     s = ''pending'' \<or> s = ''payment_processing'' \<or> s = ''payment_confirmed'' \<or>
     s = ''converting_to_usdt'' \<or> s = ''usdt_sent'' \<or> s = ''completed''"
  unfolding statusOrder_def by simp

lemma indexOf_statusOrder_at:
  "indexOf statusOrder ''pending'' = 0"
  "indexOf statusOrder ''payment_processing'' = 1"
  "indexOf statusOrder ''payment_confirmed'' = 2"
  "indexOf statusOrder ''converting_to_usdt'' = 3"
  "indexOf statusOrder ''usdt_sent'' = 4"
  "indexOf statusOrder ''completed'' = 5"
  "indexOf statusOrder ''failed'' = - 1"
  by (simp_all add: indexOf_def statusOrder_def)

lemma getStepStatus_unfold:
  "getStepStatus (Some t) key =
     (if status t = ''failed''
      then (if indexOf statusOrder key \<le> indexOf statusOrder (status t) then ''failed'' else ''pending'')
      else if indexOf statusOrder key \<le> indexOf statusOrder (status t) then ''completed''
      else if indexOf statusOrder (status t) + 1 = indexOf statusOrder key then ''active''
      else ''pending'')"
  by (simp add: getStepStatus_def Let_def)

lemma stepStatuses_unfold:
  "stepStatuses tr =
     [getStepStatus tr ''payment_processing'', getStepStatus tr ''payment_confirmed'',
      getStepStatus tr ''converting_to_usdt'', getStepStatus tr ''usdt_sent'',
      getStepStatus tr ''completed'']"
  by (simp add: stepStatuses_def steps_def)

lemma stepStatuses_at:
  "status t = ''pending'' \<Longrightarrow> stepStatuses (Some t) = [''active'', ''pending'', ''pending'', ''pending'', ''pending'']"
  "status t = ''payment_processing'' \<Longrightarrow> stepStatuses (Some t) = [''completed'', ''active'', ''pending'', ''pending'', ''pending'']"
  "status t = ''payment_confirmed'' \<Longrightarrow> stepStatuses (Some t) = [''completed'', ''completed'', ''active'', ''pending'', ''pending'']"
  "status t = ''converting_to_usdt'' \<Longrightarrow> stepStatuses (Some t) = [''completed'', ''completed'', ''completed'', ''active'', ''pending'']"
  "status t = ''usdt_sent'' \<Longrightarrow> stepStatuses (Some t) = [''completed'', ''completed'', ''completed'', ''completed'', ''active'']"
  "status t = ''completed'' \<Longrightarrow> stepStatuses (Some t) = [''completed'', ''completed'', ''completed'', ''completed'', ''completed'']"
  by (simp_all add: stepStatuses_unfold getStepStatus_unfold indexOf_statusOrder_at)

lemma stepStatuses_shape:
  assumes "status t \<in> set statusOrder"
  shows "stepStatuses (Some t) =
       replicate (nat (indexOf statusOrder (status t))) ''completed'' @
       (if indexOf statusOrder (status t) < 5 then [''active''] else []) @
       replicate (4 - nat (indexOf statusOrder (status t))) ''pending''"
  using statusOrder_cases [OF assms]
  by (elim disjE) (simp_all add: stepStatuses_at indexOf_statusOrder_at numeral_eq_Suc)

lemma step_active_iff:
  assumes "status t \<in> set statusOrder" and "key \<in> set (map fst steps)"
  shows "(getStepStatus (Some t) key = ''active'') =
         (indexOf statusOrder key = indexOf statusOrder (status t) + 1)"
    and "(getStepStatus (Some t) key = ''completed'') =
         (indexOf statusOrder key \<le> indexOf statusOrder (status t))"
proof -
  from assms(2) have key:
    "key = ''payment_processing'' \<or> key = ''payment_confirmed'' \<or>
     key = ''converting_to_usdt'' \<or> key = ''usdt_sent'' \<or> key = ''completed''"
    by (simp add: steps_def)
  from assms(1) have nf: "status t \<noteq> ''failed''"
    by (auto simp: statusOrder_def)
  show "(getStepStatus (Some t) key = ''active'') =
         (indexOf statusOrder key = indexOf statusOrder (status t) + 1)"
    using nf by (auto simp add: getStepStatus_unfold)
  show "(getStepStatus (Some t) key = ''completed'') =
         (indexOf statusOrder key \<le> indexOf statusOrder (status t))"
    using nf by (auto simp add: getStepStatus_unfold)
qed

lemma stepStatuses_status_only:
  "status t' = status t \<Longrightarrow> stepStatuses (Some t') = stepStatuses (Some t)"
  by (simp add: stepStatuses_def getStepStatus_def)


text \<open>
  C3. For a transaction whose status is one of the six statuses of \<open>statusOrder\<close>, the
  five step states are: \<open>completed\<close> for the first \<open>k\<close> steps, where \<open>k\<close> is the
  position of the status in \<open>statusOrder\<close>; then, when a step is left, one
  \<open>active\<close> step; then \<open>pending\<close> steps only. A step is \<open>active\<close> exactly when
  its position in \<open>statusOrder\<close> is that of the status plus one, and \<open>completed\<close>
  exactly when its position is at most that of the status. The list depends on the
  transaction through its status only. (The completed steps form a prefix of the list;
  for the status \<open>completed\<close> the prefix is the whole list and no step is active.)
\<close>

theorem stepStatuses_completed_prefix:
  assumes "status t \<in> set statusOrder"
  shows "stepStatuses (Some t) =
           replicate (nat (indexOf statusOrder (status t))) ''completed'' @
           (if indexOf statusOrder (status t) < 5 then [''active''] else []) @
           replicate (4 - nat (indexOf statusOrder (status t))) ''pending''
         \<and> (\<forall>key \<in> set (map fst steps).
               ((getStepStatus (Some t) key = ''active'') =
                  (indexOf statusOrder key = indexOf statusOrder (status t) + 1)) \<and>
               ((getStepStatus (Some t) key = ''completed'') =
                  (indexOf statusOrder key \<le> indexOf statusOrder (status t))))
         \<and> (\<forall>t'. status t' = status t \<longrightarrow> stepStatuses (Some t') = stepStatuses (Some t))"
proof (intro conjI ballI allI impI)
  show "stepStatuses (Some t) =
           replicate (nat (indexOf statusOrder (status t))) ''completed'' @
           (if indexOf statusOrder (status t) < 5 then [''active''] else []) @
           replicate (4 - nat (indexOf statusOrder (status t))) ''pending''"
    by (rule stepStatuses_shape [OF assms])
next
  fix key assume "key \<in> set (map fst steps)"
  then show "(getStepStatus (Some t) key = ''active'') =
                  (indexOf statusOrder key = indexOf statusOrder (status t) + 1)"
    by (rule step_active_iff(1) [OF assms])
next
  fix key assume "key \<in> set (map fst steps)"
  then show "(getStepStatus (Some t) key = ''completed'') =
                  (indexOf statusOrder key \<le> indexOf statusOrder (status t))"
    by (rule step_active_iff(2) [OF assms])
next
  fix t' :: transaction assume "status t' = status t"
  then show "stepStatuses (Some t') = stepStatuses (Some t)"
    by (rule stepStatuses_status_only)
qed

theorem stepStatuses_completed_prefix_witness:
  "status (tx_with ''payment_confirmed'') \<in> set statusOrder
   \<and> stepStatuses (Some (tx_with ''payment_confirmed'')) =
       [''completed'', ''completed'', ''active'', ''pending'', ''pending'']
   \<and> getStepStatus (Some (tx_with ''payment_confirmed'')) ''converting_to_usdt'' = ''active''
   \<and> stepStatuses (Some ((tx_with ''payment_confirmed'')\<lparr>tx_id := ''t2''\<rparr>)) =
       stepStatuses (Some (tx_with ''payment_confirmed''))"
proof -
  have mem: "status (tx_with ''payment_confirmed'') \<in> set statusOrder"
    by (simp add: tx_with_def statusOrder_def)
  have idx: "indexOf statusOrder (status (tx_with ''payment_confirmed'')) = 2"
    by (simp add: tx_with_def indexOf_statusOrder_at)
  have key: "''converting_to_usdt'' \<in> set (map fst steps)"
    by (simp add: steps_def)
  have same: "status ((tx_with ''payment_confirmed'')\<lparr>tx_id := ''t2''\<rparr>) = status (tx_with ''payment_confirmed'')"
    by simp
  note inst = stepStatuses_completed_prefix [OF mem]
  from inst have shape: "stepStatuses (Some (tx_with ''payment_confirmed'')) =
       [''completed'', ''completed'', ''active'', ''pending'', ''pending'']"
    by (simp add: idx numeral_eq_Suc)
  from inst key have "(getStepStatus (Some (tx_with ''payment_confirmed'')) ''converting_to_usdt'' = ''active'') =
      (indexOf statusOrder ''converting_to_usdt'' = indexOf statusOrder (status (tx_with ''payment_confirmed'')) + 1)"
    by blast
  then have active: "getStepStatus (Some (tx_with ''payment_confirmed'')) ''converting_to_usdt'' = ''active''"
    by (simp add: idx indexOf_statusOrder_at)
  from inst same have "stepStatuses (Some ((tx_with ''payment_confirmed'')\<lparr>tx_id := ''t2''\<rparr>)) =
       stepStatuses (Some (tx_with ''payment_confirmed''))"
    by blast
  with mem shape active show ?thesis by blast
qed

text \<open>
  C2. The code at the failing input: a transaction whose status is \<open>failed\<close>,
  whatever it had reached before. \<open>failed\<close> is not in \<open>statusOrder\<close>, so its position
  is \<open>-1\<close>, below the position of every step: all five steps are \<open>pending\<close> and no step
  is marked \<open>failed\<close>.
\<close>

theorem stepStatuses_failed_all_pending:
  "indexOf statusOrder ''failed'' = - 1
   \<and> stepStatuses (Some (t\<lparr>status := ''failed''\<rparr>)) =
       [''pending'', ''pending'', ''pending'', ''pending'', ''pending'']"
  by (simp add: stepStatuses_unfold getStepStatus_unfold indexOf_statusOrder_at)


section \<open>The listener registry\<close>

















text \<open>
  C9. While the service holds no transport, \<open>on\<close> returns the service as it was:
  neither a transport nor the registry records the callback. That is the case of the
  new service and of the service after \<open>disconnect\<close>. Nothing is kept for later: the
  transport that a following \<open>connect\<close> creates does not hold the callback, and the
  registry still does not list it.
\<close>

theorem on_without_socket:
  assumes "socket s = None"
  shows "on s event cb = s
         \<and> on websocketService event cb = websocketService
         \<and> on (disconnect s') event cb = disconnect s'
         \<and> connect (on s event cb) = connect s
         \<and> (case socket (connect (on s event cb)) of
               None \<Rightarrow> False
             | Some k \<Rightarrow> count_list (handlers k) (event, Callback cb) = 0)
         \<and> callbacks_of (connect (on s event cb)) event = callbacks_of s event"
proof -
  have 1: "on s event cb = s" using assms by (simp add: on_def)
  have 2: "on websocketService event cb = websocketService"
    by (simp add: on_def websocketService_def)
  have 3: "on (disconnect s') event cb = disconnect s'"
    by (simp add: on_def disconnect_def split: option.splits)
  have 4: "case socket (connect s) of
               None \<Rightarrow> False
             | Some k \<Rightarrow> count_list (handlers k) (event, Callback cb) = 0"
    using assms by (simp add: connect_def)
  have 5: "callbacks_of (connect s) event = callbacks_of s event"
    by (simp add: connect_def callbacks_of_def)
  from 1 2 3 4 5 show ?thesis by simp
qed

theorem on_without_socket_witness:
  "socket websocketService = None
   \<and> on websocketService ''transaction_update'' 7 = websocketService
   \<and> on (disconnect (connect websocketService)) ''transaction_update'' 7 =
       disconnect (connect websocketService)
   \<and> callbacks_of (connect (on websocketService ''transaction_update'' 7)) ''transaction_update'' = []"
proof -
  have none: "socket websocketService = None"
    by (simp add: websocketService_def)
  note inst = on_without_socket [OF none, of "''transaction_update''" 7 "connect websocketService"]
  have a: "on websocketService ''transaction_update'' 7 = websocketService"
    by (rule inst [THEN conjunct1])
  have b: "on (disconnect (connect websocketService)) ''transaction_update'' 7 =
       disconnect (connect websocketService)"
    by (rule inst [THEN conjunct2, THEN conjunct2, THEN conjunct1])
  have "callbacks_of (connect (on websocketService ''transaction_update'' 7)) ''transaction_update'' =
      callbacks_of websocketService ''transaction_update''"
    by (rule inst [THEN conjunct2, THEN conjunct2, THEN conjunct2, THEN conjunct2, THEN conjunct2])
  also have "\<dots> = []"
    by (simp add: callbacks_of_def websocketService_def)
  finally have c: "callbacks_of (connect (on websocketService ''transaction_update'' 7)) ''transaction_update'' = []" .
  show ?thesis
    by (intro conjI) (rule none a b c)+
qed


section \<open>Transport events and the frames they cause\<close>

text \<open>What one handler appends to the log while a transport is held.\<close>

lemma invoke_socket: "socket (invoke st arg h s) = socket s"
  by (cases h) (auto simp: onConnect_def onDisconnect_def joinRoom_def Let_def split: option.splits)

lemma invoke_listeners: "listeners (invoke st arg h s) = listeners s"
  by (cases h) (auto simp: onConnect_def onDisconnect_def joinRoom_def Let_def split: option.splits)

lemma joins_invoke:
  "socket s \<noteq> None \<Longrightarrow>
     joins (invoke st arg h s) =
       joins s @ (if h = ConnectHandler \<and> truthy (stored_id st) then [stored_id st] else [])"
  by (cases h)
     (auto simp: onConnect_def onDisconnect_def joinRoom_def Let_def joins_def joins_of_def
        stored_id_def split: option.splits)

lemma wire_invoke_connect:
  "socket s \<noteq> None \<Longrightarrow>
     wire (invoke st [] h s) =
       wire s @ (if h = ConnectHandler \<and> truthy (stored_id st)
                 then [Emitted ''join'' (stored_id st)] else [])"
  by (cases h)
     (auto simp: onConnect_def onDisconnect_def joinRoom_def Let_def stored_id_def
        split: option.splits)

lemma fold_invoke_socket:
  "socket (fold (\<lambda>eh s'. if fst eh = event then invoke st arg (snd eh) s' else s') hs s) = socket s"
  by (induction hs arbitrary: s) (simp_all add: invoke_socket)

lemma fold_invoke_listeners:
  "listeners (fold (\<lambda>eh s'. if fst eh = event then invoke st arg (snd eh) s' else s') hs s) = listeners s"
  by (induction hs arbitrary: s) (simp_all add: invoke_listeners)

lemma fold_invoke_joins:
  "socket s \<noteq> None \<Longrightarrow>
     joins (fold (\<lambda>eh s'. if fst eh = event then invoke st arg (snd eh) s' else s') hs s) =
       joins s @ (if truthy (stored_id st)
                  then replicate (length (filter (\<lambda>eh. fst eh = event)
                         (filter (\<lambda>eh. snd eh = ConnectHandler) hs))) (stored_id st)
                  else [])"
proof (induction hs arbitrary: s)
  case Nil
  then show ?case by simp
next
  case (Cons eh hs)
  show ?case
  proof (cases "fst eh = event")
    case True
    from Cons.prems have "socket (invoke st arg (snd eh) s) \<noteq> None"
      by (simp add: invoke_socket)
    from Cons.IH [OF this] True Cons.prems show ?thesis
      by (simp add: joins_invoke)
  next
    case False
    with Cons.IH [OF Cons.prems] show ?thesis by simp
  qed
qed

lemma fold_invoke_wire_connect:
  "socket s \<noteq> None \<Longrightarrow>
     wire (fold (\<lambda>eh s'. if fst eh = ''connect'' then invoke st [] (snd eh) s' else s') hs s) =
       wire s @ (if truthy (stored_id st)
                 then replicate (length (filter (\<lambda>eh. fst eh = ''connect'')
                        (filter (\<lambda>eh. snd eh = ConnectHandler) hs))) (Emitted ''join'' (stored_id st))
                 else [])"
proof (induction hs arbitrary: s)
  case Nil
  then show ?case by simp
next
  case (Cons eh hs)
  show ?case
  proof (cases "fst eh = ''connect''")
    case True
    from Cons.prems have "socket (invoke st [] (snd eh) s) \<noteq> None"
      by (simp add: invoke_socket)
    from Cons.IH [OF this] True Cons.prems show ?thesis
      by (simp add: wire_invoke_connect)
  next
    case False
    with Cons.IH [OF Cons.prems] show ?thesis by simp
  qed
qed

lemma connect_handlers_socket:
  "connect_handlers s = [(''connect'', ConnectHandler)] \<Longrightarrow> socket s \<noteq> None"
  by (cases "socket s") (simp_all add: connect_handlers_def)

lemma joins_transport_connect:
  assumes "connect_handlers s = [(''connect'', ConnectHandler)]"
  shows "joins (transport_connect st s) =
           joins s @ (if truthy (stored_id st) then [stored_id st] else [])"
proof -
  from assms obtain k where k: "socket s = Some k"
    and hs: "filter (\<lambda>eh. snd eh = ConnectHandler) (handlers k) = [(''connect'', ConnectHandler)]"
    by (auto simp: connect_handlers_def split: option.splits)
  have "joins (transport_connect st s) =
      joins (s\<lparr>socket := Some (k\<lparr>connected := True\<rparr>)\<rparr>) @
        (if truthy (stored_id st)
         then replicate (length (filter (\<lambda>eh. fst eh = ''connect'')
                (filter (\<lambda>eh. snd eh = ConnectHandler) (handlers k)))) (stored_id st)
         else [])"
    using k by (simp add: transport_connect_def fire_def fold_invoke_joins)
  then show ?thesis by (simp add: hs joins_def)
qed

lemma wire_transport_connect:
  assumes "connect_handlers s = [(''connect'', ConnectHandler)]"
  shows "wire (transport_connect st s) =
           wire s @ (if truthy (stored_id st) then [Emitted ''join'' (stored_id st)] else [])"
proof -
  from assms obtain k where k: "socket s = Some k"
    and hs: "filter (\<lambda>eh. snd eh = ConnectHandler) (handlers k) = [(''connect'', ConnectHandler)]"
    by (auto simp: connect_handlers_def split: option.splits)
  have "wire (transport_connect st s) =
      wire (s\<lparr>socket := Some (k\<lparr>connected := True\<rparr>)\<rparr>) @
        (if truthy (stored_id st)
         then replicate (length (filter (\<lambda>eh. fst eh = ''connect'')
                (filter (\<lambda>eh. snd eh = ConnectHandler) (handlers k)))) (Emitted ''join'' (stored_id st))
         else [])"
    using k by (simp add: transport_connect_def fire_def fold_invoke_wire_connect)
  then show ?thesis by (simp add: hs)
qed

lemma joins_transport_disconnect:
  assumes "connect_handlers s = [(''connect'', ConnectHandler)]"
  shows "joins (transport_disconnect st reason s) = joins s"
proof -
  from assms obtain k where k: "socket s = Some k"
    and hs: "filter (\<lambda>eh. snd eh = ConnectHandler) (handlers k) = [(''connect'', ConnectHandler)]"
    by (auto simp: connect_handlers_def split: option.splits)
  have "joins (transport_disconnect st reason s) =
      joins (s\<lparr>socket := Some (k\<lparr>connected := False\<rparr>)\<rparr>) @
        (if truthy (stored_id st)
         then replicate (length (filter (\<lambda>eh. fst eh = ''disconnect'')
                (filter (\<lambda>eh. snd eh = ConnectHandler) (handlers k)))) (stored_id st)
         else [])"
    using k by (simp add: transport_disconnect_def fire_def fold_invoke_joins)
  then show ?thesis by (simp add: hs joins_def)
qed

lemma connect_handlers_transport_connect:
  "connect_handlers (transport_connect st s) = connect_handlers s"
  by (auto simp: connect_handlers_def transport_connect_def fire_def fold_invoke_socket
      split: option.splits)

lemma connect_handlers_transport_disconnect:
  "connect_handlers (transport_disconnect st reason s) = connect_handlers s"
  by (auto simp: connect_handlers_def transport_disconnect_def fire_def fold_invoke_socket
      split: option.splits)


section \<open>The sample states\<close>

lemma booted_eq:
  "booted =
     \<lparr>service = websocketService,
      localStorage = \<lparr>token_item = None, user_item = None\<rparr>,
      page = \<lparr>route_id = ''t1'', transaction = None, loading = True, inflight = [],
               fetches = 0, toasts = [], handleTransactionUpdate_cb = 7\<rparr>,
      session = \<lparr>user = None, token = None, auth_loading = False, queued_user = None,
                  queued_token = None, queued_loading = False, me_requests = 0,
                  next_obj = 1\<rparr>\<rparr>"
  by (simp add: booted_def run_def start_def provider_mount_def tokenEffect_def render_def
      Let_def truthy_def userEffect_def disconnect_def websocketService_def)

lemma opened_eq:
  "opened =
     \<lparr>service =
        \<lparr>socket = Some \<lparr>connected = False,
                  handlers = [(''connect'', ConnectHandler),
                              (''disconnect'', DisconnectHandler),
                              (''connect_error'', LogHandler),
                              (''reconnect'', LogHandler),
                              (''reconnect_attempt'', LogHandler),
                              (''reconnect_failed'', LogHandler),
                              (''error'', LogHandler)]\<rparr>,
         listeners = Map.empty,
         wire = [Opened, Emitted ''join'' (Some ''u1''), Emitted ''leave'' (Some ''u1''),
                 Opened, Emitted ''join'' (Some ''u1''), Emitted ''leave'' (Some ''u1''),
                 Opened, Emitted ''join'' (Some ''u1'')]\<rparr>,
      localStorage = \<lparr>token_item = Some ''tok'', user_item = Some u1\<rparr>,
      page = \<lparr>route_id = ''t1'', transaction = None, loading = True, inflight = [],
               fetches = 0, toasts = [], handleTransactionUpdate_cb = 7\<rparr>,
      session = \<lparr>user = Some (u1\<lparr>obj := 3\<rparr>), token = Some ''tok'', auth_loading = False,
                  queued_user = Some (u1\<lparr>obj := 3\<rparr>), queued_token = Some ''tok'',
                  queued_loading = False, me_requests = 0, next_obj = 4\<rparr>\<rparr>"
  by (simp add: opened_def run_def booted_eq login_def setUser_new_def render_def
      tokenEffect_def getMe_fulfilled_def Let_def truthy_def userEffect_def
      userEffectCleanup_def connect_def joinRoom_def leaveRoom_def websocketService_def
      u1_def)

lemma connect_handlers_opened: "connect_handlers (service opened) = [(''connect'', ConnectHandler)]"
  by (simp add: opened_eq connect_handlers_def)

lemma stored_id_opened: "stored_id (localStorage opened) = Some ''u1''"
  by (simp add: opened_eq stored_id_def u1_def)

lemma signed_in_eq:
  "signed_in =
     \<lparr>service =
        \<lparr>socket = Some \<lparr>connected = True,
                  handlers = [(''connect'', ConnectHandler),
                              (''disconnect'', DisconnectHandler),
                              (''connect_error'', LogHandler),
                              (''reconnect'', LogHandler),
                              (''reconnect_attempt'', LogHandler),
                              (''reconnect_failed'', LogHandler),
                              (''error'', LogHandler)]\<rparr>,
         listeners = Map.empty,
         wire = [Opened, Emitted ''join'' (Some ''u1''), Emitted ''leave'' (Some ''u1''),
                 Opened, Emitted ''join'' (Some ''u1''), Emitted ''leave'' (Some ''u1''),
                 Opened, Emitted ''join'' (Some ''u1''),
                 Emitted ''join'' (Some ''u1'')]\<rparr>,
      localStorage = \<lparr>token_item = Some ''tok'', user_item = Some u1\<rparr>,
      page = \<lparr>route_id = ''t1'', transaction = None, loading = True, inflight = [],
               fetches = 0, toasts = [], handleTransactionUpdate_cb = 7\<rparr>,
      session = \<lparr>user = Some (u1\<lparr>obj := 3\<rparr>), token = Some ''tok'', auth_loading = False,
                  queued_user = Some (u1\<lparr>obj := 3\<rparr>), queued_token = Some ''tok'',
                  queued_loading = False, me_requests = 0, next_obj = 4\<rparr>\<rparr>"
  by (simp add: signed_in_def opened_eq transport_connect_def fire_def onConnect_def Let_def
      truthy_def joinRoom_def u1_def)

lemma connect_handlers_signed_in:
  "connect_handlers (service signed_in) = [(''connect'', ConnectHandler)]"
  by (simp add: signed_in_eq connect_handlers_def)

lemma stored_id_signed_in: "stored_id (localStorage signed_in) = Some ''u1''"
  by (simp add: signed_in_eq stored_id_def u1_def)

lemma truthy_u1: "truthy (Some ''u1'')"
  by (simp add: truthy_def)

section \<open>Room joins on transport events\<close>

text \<open>
  C10. On a transport made by \<open>connect\<close>, the event \<^verbatim>\<open>connect\<close> appends to the log
  exactly the frame \<^verbatim>\<open>join\<close> with the \<^verbatim>\<open>_id\<close> of the user item of local storage when
  that id is truthy, and nothing otherwise. The session state does not enter: replacing
  it changes nothing of what the service does. With no user item in local storage, or
  with a user item without \<^verbatim>\<open>_id\<close>, the log stays as it was, whatever the session
  holds.
\<close>

theorem connect_join_reads_storage:
  assumes "connect_handlers (service a) = [(''connect'', ConnectHandler)]"
  shows "wire (service (step TransportConnect a)) =
           wire (service a) @
             (if truthy (stored_id (localStorage a))
              then [Emitted ''join'' (stored_id (localStorage a))] else [])
         \<and> service (step TransportConnect (a\<lparr>session := sess\<rparr>)) =
             service (step TransportConnect a)
         \<and> wire (service (step TransportConnect
               (a\<lparr>localStorage := \<lparr>token_item = tk, user_item = None\<rparr>\<rparr>))) = wire (service a)
         \<and> wire (service (step TransportConnect
               (a\<lparr>localStorage := \<lparr>token_item = tk, user_item = Some (u\<lparr>user_id := None\<rparr>)\<rparr>\<rparr>))) =
             wire (service a)"
proof (intro conjI)
  show "wire (service (step TransportConnect a)) =
           wire (service a) @
             (if truthy (stored_id (localStorage a))
              then [Emitted ''join'' (stored_id (localStorage a))] else [])"
    by (simp add: wire_transport_connect [OF assms])
  show "service (step TransportConnect (a\<lparr>session := sess\<rparr>)) = service (step TransportConnect a)"
    by simp
  show "wire (service (step TransportConnect
               (a\<lparr>localStorage := \<lparr>token_item = tk, user_item = None\<rparr>\<rparr>))) = wire (service a)"
    by (simp add: wire_transport_connect [OF assms] stored_id_def truthy_def)
  show "wire (service (step TransportConnect
               (a\<lparr>localStorage := \<lparr>token_item = tk, user_item = Some (u\<lparr>user_id := None\<rparr>)\<rparr>\<rparr>))) =
             wire (service a)"
    by (simp add: wire_transport_connect [OF assms] stored_id_def truthy_def)
qed

theorem connect_join_reads_storage_witness:
  "connect_handlers (service opened) = [(''connect'', ConnectHandler)]
   \<and> user (session opened) = Some (u1\<lparr>obj := 3\<rparr>)
   \<and> wire (service (step TransportConnect opened)) =
       wire (service opened) @ [Emitted ''join'' (Some ''u1'')]
   \<and> wire (service (step TransportConnect
         (opened\<lparr>localStorage := \<lparr>token_item = None, user_item = None\<rparr>\<rparr>))) =
       wire (service opened)"
proof -
  note inst = connect_join_reads_storage [OF connect_handlers_opened, of _ None]
  have a: "user (session opened) = Some (u1\<lparr>obj := 3\<rparr>)"
    by (simp add: opened_eq)
  have b: "wire (service (step TransportConnect opened)) =
       wire (service opened) @ [Emitted ''join'' (Some ''u1'')]"
    using inst [THEN conjunct1] by (simp only: stored_id_opened truthy_u1 if_True)
  have c: "wire (service (step TransportConnect
         (opened\<lparr>localStorage := \<lparr>token_item = None, user_item = None\<rparr>\<rparr>))) =
       wire (service opened)"
    by (rule inst [THEN conjunct2, THEN conjunct2, THEN conjunct1])
  show ?thesis
    by (intro conjI) (rule connect_handlers_opened a b c)+
qed

text \<open>
  C6, as stated, fails: after a disconnection, two \<^verbatim>\<open>connect\<close> events in a row emit
  two \<^verbatim>\<open>join\<close> frames for \<open>u1\<close>, not one.
\<close>

theorem reconnect_joins_counterexample:
  "joins (service (run [TransportDisconnect ''transport close'', TransportConnect, TransportConnect]
       signed_in)) = joins (service signed_in) @ [Some ''u1'', Some ''u1'']
   \<and> length (joins (service (run [TransportDisconnect ''transport close'', TransportConnect,
       TransportConnect] signed_in))) \<noteq> length (joins (service signed_in)) + 1"
proof -
  have "joins (service (run [TransportDisconnect ''transport close'', TransportConnect, TransportConnect]
       signed_in)) = joins (service signed_in) @ [Some ''u1'', Some ''u1'']"
    by (simp add: run_def joins_transport_connect joins_transport_disconnect
        connect_handlers_transport_connect connect_handlers_transport_disconnect
        connect_handlers_signed_in stored_id_signed_in truthy_u1)
  then show ?thesis by simp
qed


lemma transport_event_step:
  assumes "is_transport_event e"
    and "connect_handlers (service a) = [(''connect'', ConnectHandler)]"
  shows "localStorage (step e a) = localStorage a"
    and "connect_handlers (service (step e a)) = [(''connect'', ConnectHandler)]"
    and "joins (service (step e a)) =
           joins (service a) @
             (if e = TransportConnect \<and> truthy (stored_id (localStorage a))
              then [stored_id (localStorage a)] else [])"
  using assms
  by (cases e;
      simp add: joins_transport_connect joins_transport_disconnect
        connect_handlers_transport_connect connect_handlers_transport_disconnect)+

text \<open>
  C6, amended. On a transport made by \<open>connect\<close>, every \<^verbatim>\<open>connect\<close> event emits one
  \<^verbatim>\<open>join\<close> frame for the \<^verbatim>\<open>_id\<close> stored in local storage (none when that id is
  missing), and a \<^verbatim>\<open>disconnect\<close> event emits none: over any sequence of transport
  events the joins emitted are as many as the \<^verbatim>\<open>connect\<close> events in it. The handler
  keeps no record of earlier joins, so repeated \<^verbatim>\<open>connect\<close> events repeat the join.
\<close>

theorem connect_events_join_each_time:
  assumes "connect_handlers (service a) = [(''connect'', ConnectHandler)]"
    and "list_all is_transport_event evs"
  shows "joins (service (run evs a)) =
           joins (service a) @
             (if truthy (stored_id (localStorage a))
              then replicate (count_list evs TransportConnect) (stored_id (localStorage a))
              else [])"
  using assms
proof (induction evs arbitrary: a)
  case Nil
  then show ?case by (simp add: run_def)
next
  case (Cons e evs)
  from Cons.prems have e: "is_transport_event e" and rest: "list_all is_transport_event evs"
    by simp_all
  note st = transport_event_step [OF e Cons.prems(1)]
  have "joins (service (run evs (step e a))) =
           joins (service (step e a)) @
             (if truthy (stored_id (localStorage (step e a)))
              then replicate (count_list evs TransportConnect) (stored_id (localStorage (step e a)))
              else [])"
    by (rule Cons.IH [OF st(2) rest])
  moreover have "run (e # evs) a = run evs (step e a)"
    by (simp add: run_def)
  ultimately show ?case
    by (simp add: st(1) st(3) replicate_append_same)
qed

theorem connect_events_join_each_time_witness:
  "connect_handlers (service signed_in) = [(''connect'', ConnectHandler)]
   \<and> list_all is_transport_event [TransportDisconnect ''io server disconnect'', TransportConnect]
   \<and> joins (service (run [TransportDisconnect ''io server disconnect'', TransportConnect] signed_in)) =
       joins (service signed_in) @ [Some ''u1'']"
proof -
  have evs: "list_all is_transport_event [TransportDisconnect ''io server disconnect'', TransportConnect]"
    by simp
  have cnt: "count_list [TransportDisconnect ''io server disconnect'', TransportConnect] TransportConnect = 1"
    by simp
  have "joins (service (run [TransportDisconnect ''io server disconnect'', TransportConnect] signed_in)) =
       joins (service signed_in) @ [Some ''u1'']"
    using connect_events_join_each_time [OF connect_handlers_signed_in evs]
    by (simp only: stored_id_signed_in truthy_u1 if_True cnt replicate.simps One_nat_def)
  with connect_handlers_signed_in evs show ?thesis by blast
qed


section \<open>Push events on the page\<close>

lemma fold_page:
  "fold (\<lambda>eh a'. if eh = key then a'\<lparr>page := f (page a')\<rparr> else a') hs a =
     a\<lparr>page := (f ^^ count_list hs key) (page a)\<rparr>"
proof (induction hs arbitrary: a)
  case Nil
  show ?case by simp
next
  case (Cons eh hs)
  show ?case
  proof (cases "eh = key")
    case True
    then show ?thesis by (simp add: Cons.IH funpow_swap1)
  next
    case False
    then show ?thesis by (simp add: Cons.IH)
  qed
qed

lemma push_eq:
  "push tid a = a\<lparr>page := (handleTransactionUpdate tid ^^ deliveries a) (page a)\<rparr>"
  by (cases "socket (service a)") (simp_all add: push_def deliveries_def fold_page)

lemma push_once:
  "deliveries a = 1 \<Longrightarrow> push tid a = a\<lparr>page := handleTransactionUpdate tid (page a)\<rparr>"
  by (simp add: push_eq)

lemma push_none: "deliveries a = 0 \<Longrightarrow> push tid a = a"
  by (simp add: push_eq)

lemma handleTransactionUpdate_fields:
  "handleTransactionUpdate_cb (handleTransactionUpdate tid p) = handleTransactionUpdate_cb p"
  "route_id (handleTransactionUpdate tid p) = route_id p"
  "fetches (handleTransactionUpdate tid p) = fetches p + (if tid = route_id p then 1 else 0)"
  "inflight (handleTransactionUpdate tid p) =
     inflight p @ (if tid = route_id p then [route_id p] else [])"
  "transaction (handleTransactionUpdate tid p) = transaction p"
  "loading (handleTransactionUpdate tid p) = loading p"
  "toasts (handleTransactionUpdate tid p) = toasts p"
  by (simp_all add: handleTransactionUpdate_def fetchTransaction_def)

lemma deliveries_cong:
  "service a' = service a \<Longrightarrow>
     handleTransactionUpdate_cb (page a') = handleTransactionUpdate_cb (page a) \<Longrightarrow>
     deliveries a' = deliveries a"
  by (simp add: deliveries_def split: option.splits)

lemma deliveries_push_once:
  "deliveries a = 1 \<Longrightarrow> deliveries (push tid a) = 1"
  using deliveries_cong [of "push tid a" a]
  by (simp add: push_once handleTransactionUpdate_fields)

lemma count_list_remove1:
  "count_list (remove1 x xs) x = count_list xs x - 1"
  by (induction xs) auto

lemma deliveries_unmount: "deliveries (unmount a) = deliveries a - 1"
  by (cases "socket (service a)")
     (simp_all add: deliveries_def unmount_def off_def socket_off_def count_list_remove1)


lemma mounted_eq:
  "mounted =
     \<lparr>service =
        \<lparr>socket = Some \<lparr>connected = True,
                  handlers = [(''connect'', ConnectHandler),
                              (''disconnect'', DisconnectHandler),
                              (''connect_error'', LogHandler),
                              (''reconnect'', LogHandler),
                              (''reconnect_attempt'', LogHandler),
                              (''reconnect_failed'', LogHandler),
                              (''error'', LogHandler),
                              (''transaction_update'', Callback 7)]\<rparr>,
         listeners = [''transaction_update'' \<mapsto> [7]],
         wire = [Opened, Emitted ''join'' (Some ''u1''), Emitted ''leave'' (Some ''u1''),
                 Opened, Emitted ''join'' (Some ''u1''), Emitted ''leave'' (Some ''u1''),
                 Opened, Emitted ''join'' (Some ''u1''),
                 Emitted ''join'' (Some ''u1'')]\<rparr>,
      localStorage = \<lparr>token_item = Some ''tok'', user_item = Some u1\<rparr>,
      page = \<lparr>route_id = ''t1'', transaction = None, loading = True, inflight = [''t1''],
               fetches = 1, toasts = [], handleTransactionUpdate_cb = 7\<rparr>,
      session = \<lparr>user = Some (u1\<lparr>obj := 3\<rparr>), token = Some ''tok'', auth_loading = False,
                  queued_user = Some (u1\<lparr>obj := 3\<rparr>), queued_token = Some ''tok'',
                  queued_loading = False, me_requests = 0, next_obj = 4\<rparr>\<rparr>"
  by (simp add: mounted_def signed_in_eq mount_def on_def socket_on_def fetchTransaction_def)

lemma viewing_eq:
  "viewing =
     \<lparr>service =
        \<lparr>socket = Some \<lparr>connected = True,
                  handlers = [(''connect'', ConnectHandler),
                              (''disconnect'', DisconnectHandler),
                              (''connect_error'', LogHandler),
                              (''reconnect'', LogHandler),
                              (''reconnect_attempt'', LogHandler),
                              (''reconnect_failed'', LogHandler),
                              (''error'', LogHandler),
                              (''transaction_update'', Callback 7)]\<rparr>,
         listeners = [''transaction_update'' \<mapsto> [7]],
         wire = [Opened, Emitted ''join'' (Some ''u1''), Emitted ''leave'' (Some ''u1''),
                 Opened, Emitted ''join'' (Some ''u1''), Emitted ''leave'' (Some ''u1''),
                 Opened, Emitted ''join'' (Some ''u1''),
                 Emitted ''join'' (Some ''u1'')]\<rparr>,
      localStorage = \<lparr>token_item = Some ''tok'', user_item = Some u1\<rparr>,
      page = \<lparr>route_id = ''t1'', transaction = Some (tx_with ''pending''), loading = False,
               inflight = [], fetches = 1, toasts = [], handleTransactionUpdate_cb = 7\<rparr>,
      session = \<lparr>user = Some (u1\<lparr>obj := 3\<rparr>), token = Some ''tok'', auth_loading = False,
                  queued_user = Some (u1\<lparr>obj := 3\<rparr>), queued_token = Some ''tok'',
                  queued_loading = False, me_requests = 0, next_obj = 4\<rparr>\<rparr>"
  by (simp add: viewing_def mounted_eq settle_def splice1_def Let_def)

lemma deliveries_mounted: "deliveries mounted = 1"
  by (simp add: mounted_eq deliveries_def)

lemma deliveries_viewing: "deliveries viewing = 1"
  by (simp add: viewing_eq deliveries_def)

lemma page_viewing:
  "route_id (page viewing) = ''t1''" "fetches (page viewing) = 1" "inflight (page viewing) = []"
  by (simp_all add: viewing_eq)

lemma settle_fields:
  "handleTransactionUpdate_cb (settle i outcome p) = handleTransactionUpdate_cb p"
  "route_id (settle i outcome p) = route_id p"
  "fetches (settle i outcome p) = fetches p"
  by (simp_all add: settle_def Let_def split: fetch_outcome.splits)

lemma page_event_step:
  assumes "is_page_event e" and "deliveries a = 1"
  shows "deliveries (step e a) = 1"
    and "route_id (page (step e a)) = route_id (page a)"
    and "fetches (page (step e a)) = fetches (page a) + (if e = Push (route_id (page a)) then 1 else 0)"
proof -
  show "deliveries (step e a) = 1"
    using assms deliveries_cong [of "step e a" a]
    by (cases e) (simp_all add: deliveries_push_once settle_fields)
  show "route_id (page (step e a)) = route_id (page a)"
    using assms by (cases e) (simp_all add: push_once handleTransactionUpdate_fields settle_fields)
  show "fetches (page (step e a)) = fetches (page a) + (if e = Push (route_id (page a)) then 1 else 0)"
    using assms by (cases e) (simp_all add: push_once handleTransactionUpdate_fields settle_fields)
qed

text \<open>
  C1, as stated, fails. The page shows \<open>t1\<close> and no request is outstanding; a push
  for \<open>t1\<close> starts a refresh, and two more pushes for \<open>t1\<close> arrive before it settles.
  Three requests have been issued, not two, and all three are outstanding together.
\<close>

theorem burst_fetches_counterexample:
  "inflight (page viewing) = []
   \<and> fetches (page (run [Push ''t1'', Push ''t1'', Push ''t1''] viewing)) = fetches (page viewing) + 3
   \<and> fetches (page (run [Push ''t1'', Push ''t1'', Push ''t1''] viewing)) \<noteq> fetches (page viewing) + 2
   \<and> \<not> length (inflight (page (run [Push ''t1'', Push ''t1'', Push ''t1''] viewing))) \<le> 1"
  by (simp add: run_def viewing_eq push_def handleTransactionUpdate_def fetchTransaction_def)

text \<open>
  C1, amended. While the page's callback is registered once on the transport, every
  \<^verbatim>\<open>transaction_update\<close> event that names the displayed id issues one request at once,
  and an event that names another id issues none. Nothing is held back or merged: over
  any sequence of pushes and settlements the number of requests issued grows by the
  number of pushes naming the displayed id, whether or not a request is outstanding
  when they arrive; and after a burst of pushes alone each of these requests has been
  added to the outstanding ones.
\<close>

theorem push_fetches_once_each:
  assumes "deliveries a = 1" and "list_all is_page_event evs"
  shows "fetches (page (run evs a)) =
           fetches (page a) + length (filter (\<lambda>e. e = Push (route_id (page a))) evs)
         \<and> inflight (page (run (map Push tids) a)) =
             inflight (page a) @
               replicate (length (filter (\<lambda>tid. tid = route_id (page a)) tids)) (route_id (page a))"
proof
  show "fetches (page (run evs a)) =
           fetches (page a) + length (filter (\<lambda>e. e = Push (route_id (page a))) evs)"
    using assms
  proof (induction evs arbitrary: a)
    case Nil
    show ?case by (simp add: run_def)
  next
    case (Cons e evs)
    from Cons.prems have e: "is_page_event e" and rest: "list_all is_page_event evs"
      by simp_all
    note st = page_event_step [OF e Cons.prems(1)]
    have r: "run (e # evs) a = run evs (step e a)"
      by (simp add: run_def)
    from Cons.IH [OF st(1) rest] show ?case
      unfolding r by (simp add: st(2) st(3))
  qed
next
  show "inflight (page (run (map Push tids) a)) =
             inflight (page a) @
               replicate (length (filter (\<lambda>tid. tid = route_id (page a)) tids)) (route_id (page a))"
    using assms(1)
  proof (induction tids arbitrary: a)
    case Nil
    show ?case by (simp add: run_def)
  next
    case (Cons tid tids)
    let ?a' = "push tid a"
    have d': "deliveries ?a' = 1"
      by (rule deliveries_push_once [OF Cons.prems])
    have p': "page ?a' = handleTransactionUpdate tid (page a)"
      by (simp add: push_once [OF Cons.prems])
    have r: "run (map Push (tid # tids)) a = run (map Push tids) ?a'"
      by (simp add: run_def)
    from Cons.IH [OF d'] show ?case
      unfolding r p' by (simp add: handleTransactionUpdate_fields replicate_append_same)
  qed
qed

theorem push_fetches_once_each_witness:
  "deliveries viewing = 1
   \<and> list_all is_page_event [Push ''t1'', Push ''t2'', Settle 0 Rejected, Push ''t1'', Push ''t1'']
   \<and> fetches (page (run [Push ''t1'', Push ''t2'', Settle 0 Rejected, Push ''t1'', Push ''t1''] viewing)) = 4
   \<and> inflight (page (run (map Push [''t1'', ''t2'', ''t1'', ''t1'']) viewing)) =
       [''t1'', ''t1'', ''t1'']"
proof -
  have evs: "list_all is_page_event [Push ''t1'', Push ''t2'', Settle 0 Rejected, Push ''t1'', Push ''t1'']"
    by simp
  have m: "length (filter (\<lambda>e. e = Push (route_id (page viewing)))
      [Push ''t1'', Push ''t2'', Settle 0 Rejected, Push ''t1'', Push ''t1'']) = 3"
    by (simp add: page_viewing)
  have n: "length (filter (\<lambda>tid. tid = route_id (page viewing)) [''t1'', ''t2'', ''t1'', ''t1'']) = 3"
    by (simp add: page_viewing)
  note inst = push_fetches_once_each [OF deliveries_viewing evs, of "[''t1'', ''t2'', ''t1'', ''t1'']"]
  have a: "fetches (page (run [Push ''t1'', Push ''t2'', Settle 0 Rejected, Push ''t1'', Push ''t1''] viewing)) = 4"
    using inst [THEN conjunct1] by (simp only: m page_viewing) simp
  have b: "inflight (page (run (map Push [''t1'', ''t2'', ''t1'', ''t1'']) viewing)) =
       [''t1'', ''t1'', ''t1'']"
    using inst [THEN conjunct2] by (simp only: n page_viewing) (simp add: numeral_eq_Suc)
  show ?thesis
    by (intro conjI) (rule deliveries_viewing evs a b)+
qed

section \<open>After the page's cleanup\<close>

lemma push_unmount:
  assumes "deliveries a \<le> 1"
  shows "push tid (unmount a) = unmount a"
proof -
  from assms have "deliveries (unmount a) = 0"
    by (simp add: deliveries_unmount)
  then show ?thesis by (rule push_none)
qed

lemma page_unmount: "page (unmount a) = page a"
  by (simp add: unmount_def)

text \<open>
  C5, as stated, fails. The page is mounted and its request is outstanding; the page
  unmounts; the request then settles with a transaction. The continuation of
  \<^verbatim>\<open>fetchTransaction\<close> stores that transaction and clears \<open>loading\<close>: the result
  is not discarded. Had the request been rejected, the error toast would have been shown.
\<close>

theorem settle_after_unmount_counterexample:
  "transaction (page (run [Unmount] mounted)) = None
   \<and> loading (page (run [Unmount] mounted)) = True
   \<and> transaction (page (run [Unmount, Settle 0 (Fulfilled (Some (tx_with ''completed'')))] mounted)) =
       Some (tx_with ''completed'')
   \<and> loading (page (run [Unmount, Settle 0 (Fulfilled (Some (tx_with ''completed'')))] mounted)) = False
   \<and> toasts (page (run [Unmount, Settle 0 Rejected] mounted)) = [''Failed to load transaction'']"
  by (simp add: run_def page_unmount mounted_eq settle_def splice1_def Let_def)

text \<open>
  C5, amended. After the cleanup of the page's effect (the callback being registered
  at most once before), a \<^verbatim>\<open>transaction_update\<close> event reaches no handler of the page:
  the application is exactly as it was, so no request is issued and no state changes.
  The cleanup itself leaves the page's state alone. A request that is outstanding at
  that time is not cancelled and its result is not discarded: when it settles, the
  continuation calls \<^verbatim>\<open>setTransaction\<close> with the result, or \<^verbatim>\<open>toast.error\<close> on a
  rejection, and \<^verbatim>\<open>setLoading(false)\<close>, as it does on a mounted page.
\<close>

theorem late_events_after_unmount:
  assumes "deliveries a \<le> 1" and "i < length (inflight (page a))"
  shows "push tid (unmount a) = unmount a
         \<and> page (unmount a) = page a
         \<and> page (step (Settle i (Fulfilled t)) (unmount a)) =
             (page a)\<lparr>inflight := splice1 i (inflight (page a)), transaction := t, loading := False\<rparr>
         \<and> page (step (Settle i Rejected) (unmount a)) =
             (page a)\<lparr>inflight := splice1 i (inflight (page a)),
                       toasts := toasts (page a) @ [''Failed to load transaction''],
                       loading := False\<rparr>"
proof (intro conjI)
  show "push tid (unmount a) = unmount a"
    by (rule push_unmount [OF assms(1)])
  show "page (unmount a) = page a"
    by (rule page_unmount)
  show "page (step (Settle i (Fulfilled t)) (unmount a)) =
             (page a)\<lparr>inflight := splice1 i (inflight (page a)), transaction := t, loading := False\<rparr>"
    using assms(2) by (simp add: page_unmount settle_def Let_def)
  show "page (step (Settle i Rejected) (unmount a)) =
             (page a)\<lparr>inflight := splice1 i (inflight (page a)),
                       toasts := toasts (page a) @ [''Failed to load transaction''],
                       loading := False\<rparr>"
    using assms(2) by (simp add: page_unmount settle_def Let_def)
qed

theorem late_events_after_unmount_witness:
  "deliveries mounted \<le> 1
   \<and> 0 < length (inflight (page mounted))
   \<and> push ''t1'' (unmount mounted) = unmount mounted
   \<and> transaction (page (step (Settle 0 (Fulfilled (Some (tx_with ''usdt_sent'')))) (unmount mounted))) =
       Some (tx_with ''usdt_sent'')"
proof -
  have d: "deliveries mounted \<le> 1"
    by (simp add: deliveries_mounted)
  have i: "0 < length (inflight (page mounted))"
    by (simp add: mounted_eq)
  note inst = late_events_after_unmount [OF d i, of "''t1''" "Some (tx_with ''usdt_sent'')"]
  have a: "push ''t1'' (unmount mounted) = unmount mounted"
    by (rule inst [THEN conjunct1])
  have b: "transaction (page (step (Settle 0 (Fulfilled (Some (tx_with ''usdt_sent'')))) (unmount mounted))) =
       Some (tx_with ''usdt_sent'')"
    using inst [THEN conjunct2, THEN conjunct2, THEN conjunct1] by simp
  show ?thesis
    by (intro conjI) (rule d i a b)+
qed

section \<open>Logout\<close>

lemma disconnect_with_socket:
  "socket s \<noteq> None \<Longrightarrow> disconnect s = s\<lparr>socket := None, wire := wire s @ [Closed]\<rparr>"
  by (auto simp: disconnect_def split: option.splits)

lemma leaveRoom_no_socket: "socket s = None \<Longrightarrow> leaveRoom s room = s"
  by (simp add: leaveRoom_def)

lemma disconnect_no_socket: "socket s = None \<Longrightarrow> disconnect s = s"
  by (simp add: disconnect_def)

lemma service_tokenEffect: "service (tokenEffect a) = service a"
  by (simp add: tokenEffect_def Let_def)

lemma service_render_no_socket:
  assumes "socket (service a) = None" and "queued_user (session a) = None"
  shows "service (render a) = service a"
proof -
  have cleanup: "userEffectCleanup u (service a) = service a" for u
    using assms(1) by (cases u) (simp_all add: userEffectCleanup_def leaveRoom_no_socket)
  have effect: "userEffect None (service a) = service a"
    using assms(1) by (simp add: userEffect_def disconnect_no_socket)
  show ?thesis
    by (simp add: render_def Let_def assms(2) service_tokenEffect cleanup effect)
qed

lemma user_render: "user (session (render a)) = queued_user (session a)"
  by (simp add: render_def Let_def tokenEffect_def setUser_new_def split: option.splits)

text \<open>
  C4. The code at a logout: a user is present and the service holds a transport.
  \<open>logout\<close> itself closes the transport and drops it, before the provider renders.
  At the render that follows, the cleanup of the effect on \<^verbatim>\<open>[user]\<close> calls
  \<open>leaveRoom\<close> for the previous user, which finds no transport and emits nothing, and
  the effect calls \<open>disconnect\<close> again, which does nothing: the log has grown by the
  closing alone, with no \<^verbatim>\<open>leave\<close> frame before it. The last line is the effect and
  its cleanup on their own, on the transport as it was before \<open>logout\<close>: they emit
  the \<^verbatim>\<open>leave\<close> frame for the previous user and then close the transport.
\<close>

theorem logout_disconnects_first:
  assumes "user (session a) = Some usr" and "socket (service a) \<noteq> None"
  shows "wire (service (logout a)) = wire (service a) @ [Closed]
         \<and> socket (service (logout a)) = None
         \<and> userEffectCleanup (Some usr) (service (logout a)) = service (logout a)
         \<and> service (run [Logout, Render] a) = service (logout a)
         \<and> wire (service (run [Logout, Render] a)) = wire (service a) @ [Closed]
         \<and> user (session (run [Logout, Render] a)) = None
         \<and> wire (userEffect None (userEffectCleanup (Some usr) (service a))) =
             wire (service a) @ [Emitted ''leave'' (user_id usr), Closed]"
proof -
  have s: "service (logout a) = (service a)\<lparr>socket := None, wire := wire (service a) @ [Closed]\<rparr>"
    by (simp add: logout_def disconnect_with_socket [OF assms(2)])
  have none: "socket (service (logout a)) = None"
    by (simp add: s)
  have w: "wire (service (logout a)) = wire (service a) @ [Closed]"
    by (simp add: s)
  have cleanup: "userEffectCleanup (Some usr) (service (logout a)) = service (logout a)"
    by (simp add: userEffectCleanup_def leaveRoom_no_socket [OF none])
  have q: "queued_user (session (logout a)) = None"
    by (simp add: logout_def)
  have r: "service (render (logout a)) = service (logout a)"
    by (rule service_render_no_socket [OF none q])
  have u: "user (session (render (logout a))) = None"
    by (simp add: user_render q)
  have run: "run [Logout, Render] a = render (logout a)"
    by (simp add: run_def)
  have pair: "wire (userEffect None (userEffectCleanup (Some usr) (service a))) =
             wire (service a) @ [Emitted ''leave'' (user_id usr), Closed]"
    using assms(2)
    by (auto simp: userEffect_def userEffectCleanup_def leaveRoom_def disconnect_def
        split: option.splits)
  show ?thesis
    unfolding run r u by (intro conjI) (rule w none cleanup refl pair)+
qed

theorem logout_disconnects_first_witness:
  "user (session signed_in) = Some (u1\<lparr>obj := 3\<rparr>)
   \<and> socket (service signed_in) \<noteq> None
   \<and> wire (service (run [Logout, Render] signed_in)) = wire (service signed_in) @ [Closed]
   \<and> socket (service (logout signed_in)) = None
   \<and> wire (userEffect None (userEffectCleanup (Some (u1\<lparr>obj := 3\<rparr>)) (service signed_in))) =
       wire (service signed_in) @ [Emitted ''leave'' (Some ''u1''), Closed]"
proof -
  have u: "user (session signed_in) = Some (u1\<lparr>obj := 3\<rparr>)"
    by (simp add: signed_in_eq)
  have k: "socket (service signed_in) \<noteq> None"
    by (simp add: signed_in_eq)
  note inst = logout_disconnects_first [OF u k]
  have a: "wire (service (run [Logout, Render] signed_in)) = wire (service signed_in) @ [Closed]"
    by (rule inst [THEN conjunct2, THEN conjunct2, THEN conjunct2, THEN conjunct2, THEN conjunct1])
  have b: "socket (service (logout signed_in)) = None"
    by (rule inst [THEN conjunct2, THEN conjunct1])
  have c: "wire (userEffect None (userEffectCleanup (Some (u1\<lparr>obj := 3\<rparr>)) (service signed_in))) =
       wire (service signed_in) @ [Emitted ''leave'' (Some ''u1''), Closed]"
    using inst [THEN conjunct2, THEN conjunct2, THEN conjunct2, THEN conjunct2, THEN conjunct2,
        THEN conjunct2]
    by (simp add: u1_def)
  show ?thesis
    by (intro conjI) (rule u k a b c)+
qed

section \<open>Retry on timeout\<close>

lemma request_answer:
  "net n = Answer body \<Longrightarrow> request net config n = (Inr body, False, Suc n)"
  by (subst request.simps) simp

lemma request_reject:
  "net n = Failure e \<Longrightarrow> onRejected e config = Reject err relogin \<Longrightarrow>
     request net config n = (Inl err, relogin, Suc n)"
  by (subst request.simps) simp

lemma request_retry:
  "net n = Failure e \<Longrightarrow> onRejected e config = Retry config' \<Longrightarrow>
     request net config n = request net config' (Suc n)"
  by (subst request.simps) simp

lemma onRejected_timeout_first:
  "code e = Some ''ECONNABORTED'' \<Longrightarrow> retryCount config = None \<Longrightarrow>
     onRejected e config = Retry (config\<lparr>retryCount := Some 1\<rparr>)"
  by (simp add: onRejected_def)

lemma onRejected_timeout_again:
  "code e = Some ''ECONNABORTED'' \<Longrightarrow> retryCount config = Some 1 \<Longrightarrow>
     onRejected e config =
       Reject \<lparr>message = ''Connection timeout. The server is taking too long to respond. Please try again.'',
               isTimeout = True, isNetworkError = False\<rparr> False"
  by (simp add: onRejected_def)

lemma onRejected_other:
  "code e \<noteq> Some ''ECONNABORTED'' \<Longrightarrow>
     \<exists>err relogin. onRejected e config = Reject err relogin \<and>
       isTimeout err =
         (\<not> (code e = Some ''ERR_NETWORK'' \<or> error_message e = ''Network Error'') \<and>
          (case response e of
             None \<Rightarrow> False
           | Some (http_status, data) \<Rightarrow> body_isTimeout data = Some True))"
  by (auto simp: onRejected_def Let_def split: option.splits prod.splits)

lemma request_marked:
  assumes "retryCount config = Some 1"
  shows "snd (snd (request net config n)) = Suc n"
proof (cases "net n")
  case (Answer body)
  then show ?thesis by (simp add: request_answer)
next
  case (Failure e)
  have "\<exists>err relogin. onRejected e config = Reject err relogin"
    using assms by (auto simp: onRejected_def Let_def split: option.splits prod.splits)
  then obtain err relogin where "onRejected e config = Reject err relogin" by blast
  with Failure show ?thesis by (simp add: request_reject [of net n e config err relogin])
qed

lemma getTransaction_first_timeout:
  assumes "net 0 = Failure e" and "code e = Some ''ECONNABORTED''"
  shows "getTransaction net tid =
           request net \<lparr>url = ''/transactions/'' @ tid, retryCount = Some 1\<rparr> (Suc 0)"
proof -
  have "onRejected e \<lparr>url = ''/transactions/'' @ tid, retryCount = None\<rparr> =
      Retry \<lparr>url = ''/transactions/'' @ tid, retryCount = Some 1\<rparr>"
    using assms(2) by (simp add: onRejected_timeout_first)
  with assms(1) show ?thesis
    by (simp add: getTransaction_def
        request_retry [of net 0 e _ "\<lparr>url = ''/transactions/'' @ tid, retryCount = Some 1\<rparr>"])
qed

lemma getTransaction_attempts:
  "snd (snd (getTransaction net tid)) =
     (case net 0 of
        Answer body \<Rightarrow> 1
      | Failure e \<Rightarrow> if code e = Some ''ECONNABORTED'' then 2 else 1)"
proof (cases "net 0")
  case (Answer body)
  then show ?thesis by (simp add: getTransaction_def request_answer [of net 0 body])
next
  case (Failure e)
  show ?thesis
  proof (cases "code e = Some ''ECONNABORTED''")
    case True
    with Failure show ?thesis
      by (simp add: getTransaction_first_timeout [of net e, OF Failure True] request_marked)
  next
    case False
    from onRejected_other [OF False] obtain err relogin
      where "onRejected e \<lparr>url = ''/transactions/'' @ tid, retryCount = None\<rparr> = Reject err relogin"
      by blast
    with Failure False show ?thesis
      by (simp add: getTransaction_def request_reject [of net 0 e _ err relogin])
  qed
qed

lemma getTransaction_two_timeouts:
  assumes "net 0 = Failure e0" "code e0 = Some ''ECONNABORTED''"
    and "net 1 = Failure e1" "code e1 = Some ''ECONNABORTED''"
  shows "getTransaction net tid =
    (Inl \<lparr>message = ''Connection timeout. The server is taking too long to respond. Please try again.'',
          isTimeout = True, isNetworkError = False\<rparr>, False, 2)"
proof -
  let ?c1 = "\<lparr>url = ''/transactions/'' @ tid, retryCount = Some 1\<rparr>"
  let ?err = "\<lparr>message = ''Connection timeout. The server is taking too long to respond. Please try again.'',
          isTimeout = True, isNetworkError = False\<rparr>"
  from assms(3) have n1: "net (Suc 0) = Failure e1" by simp
  have rj: "onRejected e1 ?c1 = Reject ?err False"
    using assms(4) by (simp add: onRejected_timeout_again)
  have "request net ?c1 (Suc 0) = (Inl ?err, False, Suc (Suc 0))"
    by (rule request_reject [of net "Suc 0" e1 ?c1 ?err False, OF n1 rj])
  then show ?thesis
    by (simp add: getTransaction_first_timeout [of net e0, OF assms(1,2)])
qed

lemma getTransaction_timeout_then_answer:
  assumes "net 0 = Failure e0" "code e0 = Some ''ECONNABORTED''" and "net 1 = Answer body"
  shows "getTransaction net tid = (Inr body, False, 2)"
proof -
  from assms(3) have "net (Suc 0) = Answer body" by simp
  then show ?thesis
    by (simp add: getTransaction_first_timeout [of net e0, OF assms(1,2)] request_answer [of net "Suc 0" body])
qed

lemma getTransaction_other_failure:
  assumes "net 0 = Failure e" "code e \<noteq> Some ''ECONNABORTED''"
  shows "\<exists>err relogin. getTransaction net tid = (Inl err, relogin, 1) \<and>
           isTimeout err =
             (\<not> (code e = Some ''ERR_NETWORK'' \<or> error_message e = ''Network Error'') \<and>
              (case response e of
                 None \<Rightarrow> False
               | Some (http_status, data) \<Rightarrow> body_isTimeout data = Some True))"
proof -
  from onRejected_other [OF assms(2)] obtain err relogin
    where r: "onRejected e \<lparr>url = ''/transactions/'' @ tid, retryCount = None\<rparr> = Reject err relogin"
      and nt: "isTimeout err =
             (\<not> (code e = Some ''ERR_NETWORK'' \<or> error_message e = ''Network Error'') \<and>
              (case response e of
                 None \<Rightarrow> False
               | Some (http_status, data) \<Rightarrow> body_isTimeout data = Some True))"
    by blast
  have "getTransaction net tid = (Inl err, relogin, 1)"
    using assms(1) r by (simp add: getTransaction_def request_reject [of net 0 e _ err relogin])
  with nt show ?thesis by blast
qed

text \<open>
  C8. A request for a transaction is transmitted twice exactly when its first
  transmission fails with the code \<^verbatim>\<open>ECONNABORTED\<close> (a timeout), and once otherwise:
  a timeout is retried once and never twice, and no other failure is retried. When the
  retry times out as well, the caller's promise is rejected with an object whose
  \<^verbatim>\<open>isTimeout\<close> is set; when the retry is answered, the caller gets the answer. A
  first failure that is not a timeout is rejected after the single transmission; the
  object it is rejected with has \<^verbatim>\<open>isTimeout\<close> set only when the server answered
  and the body of its answer carries that flag itself (the interceptor spreads the body
  over the object).
\<close>

theorem timeout_retried_once:
  "snd (snd (getTransaction net tid)) =
     (case net 0 of
        Answer body \<Rightarrow> 1
      | Failure e \<Rightarrow> if code e = Some ''ECONNABORTED'' then 2 else 1)
   \<and> (net1 0 = Failure e0 \<and> code e0 = Some ''ECONNABORTED'' \<and>
       net1 1 = Failure e1 \<and> code e1 = Some ''ECONNABORTED'' \<longrightarrow>
         getTransaction net1 tid =
           (Inl \<lparr>message = ''Connection timeout. The server is taking too long to respond. Please try again.'',
                 isTimeout = True, isNetworkError = False\<rparr>, False, 2))
   \<and> (net2 0 = Failure e2 \<and> code e2 = Some ''ECONNABORTED'' \<and> net2 1 = Answer body \<longrightarrow>
         getTransaction net2 tid = (Inr body, False, 2))
   \<and> (net3 0 = Failure e3 \<and> code e3 \<noteq> Some ''ECONNABORTED'' \<longrightarrow>
         (\<exists>err relogin. getTransaction net3 tid = (Inl err, relogin, 1) \<and>
            isTimeout err =
              (\<not> (code e3 = Some ''ERR_NETWORK'' \<or> error_message e3 = ''Network Error'') \<and>
               (case response e3 of
                  None \<Rightarrow> False
                | Some (http_status, data) \<Rightarrow> body_isTimeout data = Some True))))"
proof (intro conjI impI)
  show "snd (snd (getTransaction net tid)) =
     (case net 0 of
        Answer body \<Rightarrow> 1
      | Failure e \<Rightarrow> if code e = Some ''ECONNABORTED'' then 2 else 1)"
    by (rule getTransaction_attempts)
next
  assume "net1 0 = Failure e0 \<and> code e0 = Some ''ECONNABORTED'' \<and>
       net1 1 = Failure e1 \<and> code e1 = Some ''ECONNABORTED''"
  then show "getTransaction net1 tid =
           (Inl \<lparr>message = ''Connection timeout. The server is taking too long to respond. Please try again.'',
                 isTimeout = True, isNetworkError = False\<rparr>, False, 2)"
    by (intro getTransaction_two_timeouts [of net1 e0 e1]) simp_all
next
  assume "net2 0 = Failure e2 \<and> code e2 = Some ''ECONNABORTED'' \<and> net2 1 = Answer body"
  then show "getTransaction net2 tid = (Inr body, False, 2)"
    by (intro getTransaction_timeout_then_answer [of net2 e2]) simp_all
next
  assume "net3 0 = Failure e3 \<and> code e3 \<noteq> Some ''ECONNABORTED''"
  then show "\<exists>err relogin. getTransaction net3 tid = (Inl err, relogin, 1) \<and>
            isTimeout err =
              (\<not> (code e3 = Some ''ERR_NETWORK'' \<or> error_message e3 = ''Network Error'') \<and>
               (case response e3 of
                  None \<Rightarrow> False
                | Some (http_status, data) \<Rightarrow> body_isTimeout data = Some True))"
    by (intro getTransaction_other_failure [of net3 e3]) simp_all
qed

theorem timeout_retried_once_witness:
  "always_times_out 0 = Failure timed_out
   \<and> always_times_out 1 = Failure timed_out
   \<and> code timed_out = Some ''ECONNABORTED''
   \<and> getTransaction always_times_out ''t1'' =
       (Inl \<lparr>message = ''Connection timeout. The server is taking too long to respond. Please try again.'',
             isTimeout = True, isNetworkError = False\<rparr>, False, 2)
   \<and> second_try_answers 0 = Failure timed_out
   \<and> second_try_answers 1 = Answer (tx_with ''completed'')
   \<and> getTransaction second_try_answers ''t1'' = (Inr (tx_with ''completed''), False, 2)
   \<and> no_network 0 = Failure unreachable
   \<and> code unreachable \<noteq> Some ''ECONNABORTED''
   \<and> snd (snd (getTransaction no_network ''t1'')) = 1
   \<and> (\<exists>err relogin. getTransaction no_network ''t1'' = (Inl err, relogin, 1) \<and> \<not> isTimeout err)
   \<and> failing_server 0 = Failure gateway_timeout
   \<and> code gateway_timeout \<noteq> Some ''ECONNABORTED''
   \<and> (\<exists>err relogin. getTransaction failing_server ''t1'' = (Inl err, relogin, 1) \<and> isTimeout err)"
proof -
  note inst = timeout_retried_once [where net = no_network and tid = "''t1''"
      and ?net1.0 = always_times_out and ?e0.0 = timed_out and ?e1.0 = timed_out
      and ?net2.0 = second_try_answers and ?e2.0 = timed_out and body = "tx_with ''completed''"
      and ?net3.0 = no_network and ?e3.0 = unreachable]
  note inst' = timeout_retried_once [where net = failing_server and tid = "''t1''"
      and ?net1.0 = always_times_out and ?e0.0 = timed_out and ?e1.0 = timed_out
      and ?net2.0 = second_try_answers and ?e2.0 = timed_out and body = "tx_with ''completed''"
      and ?net3.0 = failing_server and ?e3.0 = gateway_timeout]
  have a0: "always_times_out 0 = Failure timed_out" and a1: "always_times_out 1 = Failure timed_out"
    by (simp_all add: always_times_out_def)
  have c: "code timed_out = Some ''ECONNABORTED''"
    by (simp add: timed_out_def)
  have s0: "second_try_answers 0 = Failure timed_out"
    and s1: "second_try_answers 1 = Answer (tx_with ''completed'')"
    by (simp_all add: second_try_answers_def)
  have n0: "no_network 0 = Failure unreachable"
    by (simp add: no_network_def)
  have u: "code unreachable \<noteq> Some ''ECONNABORTED''"
    by (simp add: unreachable_def)
  have f0: "failing_server 0 = Failure gateway_timeout"
    by (simp add: failing_server_def)
  have g: "code gateway_timeout \<noteq> Some ''ECONNABORTED''"
    by (simp add: gateway_timeout_def)
  have r1: "getTransaction always_times_out ''t1'' =
       (Inl \<lparr>message = ''Connection timeout. The server is taking too long to respond. Please try again.'',
             isTimeout = True, isNetworkError = False\<rparr>, False, 2)"
    using inst [THEN conjunct2, THEN conjunct1] a0 a1 c by blast
  have r2: "getTransaction second_try_answers ''t1'' = (Inr (tx_with ''completed''), False, 2)"
    using inst [THEN conjunct2, THEN conjunct2, THEN conjunct1] s0 s1 c by blast
  have r3: "snd (snd (getTransaction no_network ''t1'')) = 1"
    using inst [THEN conjunct1] by (simp add: n0 u)
  from inst [THEN conjunct2, THEN conjunct2, THEN conjunct2, rule_format, OF conjI [OF n0 u]]
  obtain err relogin where "getTransaction no_network ''t1'' = (Inl err, relogin, 1)"
    and "isTimeout err =
              (\<not> (code unreachable = Some ''ERR_NETWORK'' \<or> error_message unreachable = ''Network Error'') \<and>
               (case response unreachable of
                  None \<Rightarrow> False
                | Some (http_status, data) \<Rightarrow> body_isTimeout data = Some True))"
    by blast
  then have r4: "\<exists>err relogin. getTransaction no_network ''t1'' = (Inl err, relogin, 1) \<and> \<not> isTimeout err"
    by (simp add: unreachable_def)
  from inst' [THEN conjunct2, THEN conjunct2, THEN conjunct2, rule_format, OF conjI [OF f0 g]]
  obtain err' relogin' where "getTransaction failing_server ''t1'' = (Inl err', relogin', 1)"
    and "isTimeout err' =
              (\<not> (code gateway_timeout = Some ''ERR_NETWORK'' \<or> error_message gateway_timeout = ''Network Error'') \<and>
               (case response gateway_timeout of
                  None \<Rightarrow> False
                | Some (http_status, data) \<Rightarrow> body_isTimeout data = Some True))"
    by blast
  then have r5: "\<exists>err relogin. getTransaction failing_server ''t1'' = (Inl err, relogin, 1) \<and> isTimeout err"
    by (simp add: gateway_timeout_def)
  show ?thesis
    by (intro conjI) (rule a0 a1 c r1 s0 s1 r2 n0 u r3 r4 f0 g r5)+
qed

end
